theory Spec2Isabelle
  imports Main "HOL-Library.AList" "HOL-Library.Char_ord" "HOL-Library.List_Lexorder"
begin

section \<open>Type descriptions (the part of Go's reflect API that reflect.go reads)\<close>

text \<open>
  reflect.go walks values of \<open>reflect.Type\<close>. A type description is modelled as a finite
  tree: one constructor per shape of kind, carrying what the code asks of it
  (\<open>Name()\<close>, \<open>Kind()\<close>, \<open>Elem()\<close>, \<open>Len()\<close>, \<open>NumField()\<close>/\<open>Field(i)\<close>,
  \<open>Implements\<close>). Type identity (\<open>==\<close> on \<open>reflect.Type\<close>) is equality of descriptions.
  Go types that refer to themselves are not finite trees and are not covered; the
  traversal does not return on them.
\<close>

datatype kind =
    KInvalid | KBool | KInt | KInt8 | KInt16 | KInt32 | KInt64
  | KUint | KUint8 | KUint16 | KUint32 | KUint64 | KUintptr
  | KFloat32 | KFloat64 | KComplex64 | KComplex128
  | KArray | KChan | KFunc | KInterface | KMap | KPtr | KSlice | KString | KStruct | KUnsafePointer

text \<open>The kinds that carry no element type, field or method table of their own shape.\<close>

datatype basic =
    BBool | BInt | BInt8 | BInt16 | BInt32 | BInt64
  | BUint | BUint8 | BUint16 | BUint32 | BUint64 | BUintptr
  | BFloat32 | BFloat64 | BComplex64 | BComplex128 | BString | BUnsafePointer

fun basic_kind :: "basic \<Rightarrow> kind" where
  "basic_kind BBool = KBool"
| "basic_kind BInt = KInt"
| "basic_kind BInt8 = KInt8"
| "basic_kind BInt16 = KInt16"
| "basic_kind BInt32 = KInt32"
| "basic_kind BInt64 = KInt64"
| "basic_kind BUint = KUint"
| "basic_kind BUint8 = KUint8"
| "basic_kind BUint16 = KUint16"
| "basic_kind BUint32 = KUint32"
| "basic_kind BUint64 = KUint64"
| "basic_kind BUintptr = KUintptr"
| "basic_kind BFloat32 = KFloat32"
| "basic_kind BFloat64 = KFloat64"
| "basic_kind BComplex64 = KComplex64"
| "basic_kind BComplex128 = KComplex128"
| "basic_kind BString = KString"
| "basic_kind BUnsafePointer = KUnsafePointer"

text \<open>
  Every type has a declared name (empty for an unnamed type), the path of the declaring
  package, and a method set (method signatures as strings).
\<close>

record tinfo =
  tname :: string
  tpkg :: string
  tmethods :: "string list"

text \<open>
  A struct tag is kept in parsed form: the list of its \<open>key:"value"\<close> pairs, in
  order; \<open>Lookup\<close> returns the first pair with the key.
\<close>

datatype rtype =
    BasicT tinfo basic
  | StructT tinfo "sfield list"
  | MapT tinfo rtype rtype
  | SliceT tinfo rtype
  | ArrayT tinfo nat rtype
  | PtrT "string list" rtype
  | InterfaceT tinfo
  | ChanT tinfo rtype
  | FuncT tinfo
and sfield =
    StructField (FName: string) (FPkgPath: string) (FType: rtype)
                (FTag: "(string \<times> string) list") (FAnonymous: bool)

fun Kind_of :: "rtype \<Rightarrow> kind" where
  "Kind_of (BasicT i b) = basic_kind b"
| "Kind_of (StructT i fs) = KStruct"
| "Kind_of (MapT i k v) = KMap"
| "Kind_of (SliceT i e) = KSlice"
| "Kind_of (ArrayT i n e) = KArray"
| "Kind_of (PtrT ms e) = KPtr"
| "Kind_of (InterfaceT i) = KInterface"
| "Kind_of (ChanT i e) = KChan"
| "Kind_of (FuncT i) = KFunc"

fun Name_of :: "rtype \<Rightarrow> string" where
  "Name_of (BasicT i b) = tname i"
| "Name_of (StructT i fs) = tname i"
| "Name_of (MapT i k v) = tname i"
| "Name_of (SliceT i e) = tname i"
| "Name_of (ArrayT i n e) = tname i"
| "Name_of (PtrT ms e) = []"
| "Name_of (InterfaceT i) = tname i"
| "Name_of (ChanT i e) = tname i"
| "Name_of (FuncT i) = tname i"

fun Methods_of :: "rtype \<Rightarrow> string list" where
  "Methods_of (BasicT i b) = tmethods i"
| "Methods_of (StructT i fs) = tmethods i"
| "Methods_of (MapT i k v) = tmethods i"
| "Methods_of (SliceT i e) = tmethods i"
| "Methods_of (ArrayT i n e) = tmethods i"
| "Methods_of (PtrT ms e) = ms"
| "Methods_of (InterfaceT i) = tmethods i"
| "Methods_of (ChanT i e) = tmethods i"
| "Methods_of (FuncT i) = tmethods i"

text \<open>
  \<open>t.Implements(u)\<close> for an interface type \<open>u\<close>: every method of \<open>u\<close> is in the
  method set of \<open>t\<close>.
\<close>

definition Implements :: "rtype \<Rightarrow> rtype \<Rightarrow> bool" where
  "Implements t u = (\<forall>m \<in> set (Methods_of u). m \<in> set (Methods_of t))"

definition Lookup :: "(string \<times> string) list \<Rightarrow> string \<Rightarrow> string option" where
  "Lookup tag key = map_of tag key"

definition Get :: "(string \<times> string) list \<Rightarrow> string \<Rightarrow> string" where
  "Get tag key = (case Lookup tag key of None \<Rightarrow> [] | Some v \<Rightarrow> v)"

definition unnamed :: tinfo where
  "unnamed = \<lparr>tname = [], tpkg = [], tmethods = []\<rparr>"

definition builtin :: "string \<Rightarrow> tinfo" where
  "builtin n = \<lparr>tname = n, tpkg = [], tmethods = []\<rparr>"

definition uint8T :: rtype where
  "uint8T = BasicT (builtin ''uint8'') BUint8"

definition stringT :: rtype where
  "stringT = BasicT (builtin ''string'') BString"

definition intT :: rtype where
  "intT = BasicT (builtin ''int'') BInt"

definition boolT :: rtype where
  "boolT = BasicT (builtin ''bool'') BBool"

text \<open>
  The package-level type constants of reflect.go. The standard library's declarations
  are abbreviated to their identity (name, package, kind); their fields and methods are
  never read, because each is matched by identity before any traversal.
\<close>

definition timeType :: rtype where
  "timeType = StructT \<lparr>tname = ''Time'', tpkg = ''time'', tmethods = []\<rparr> []"

definition ipType :: rtype where
  "ipType = SliceT \<lparr>tname = ''IP'', tpkg = ''net'', tmethods = []\<rparr> uint8T"

definition uriType :: rtype where
  "uriType = StructT \<lparr>tname = ''URL'', tpkg = ''net/url'', tmethods = []\<rparr> []"

definition byteSliceType :: rtype where
  "byteSliceType = SliceT unnamed uint8T"

definition protoEnumType :: rtype where
  "protoEnumType = InterfaceT \<lparr>tname = ''protoEnum'', tpkg = ''jsonschema'',
      tmethods = [''EnumDescriptor() ([]byte, []int)'']\<rparr>"

section \<open>Schema nodes\<close>

text \<open>
  A value held in an \<open>interface{}\<close> (the values of an enum registration, the ignore
  list, \<open>Default\<close>, \<open>Enum\<close>, \<open>Examples\<close>): nil, a string, an int, a slice of such
  values, or a value of some other declared type with its printed form.
\<close>

datatype any = ANil | AString string | AInt int | ASlice "any list" | AValue rtype string

fun TypeOf :: "any \<Rightarrow> rtype option" where
  "TypeOf ANil = None"
| "TypeOf (AString s) = Some stringT"
| "TypeOf (AInt i) = Some intT"
| "TypeOf (ASlice vs) = Some (SliceT unnamed (InterfaceT unnamed))"
| "TypeOf (AValue t s) = Some t"

text \<open>
  The struct \<open>Type\<close> of reflect.go. HOL records cannot be recursive, so the keywords
  that hold no node are a record and the keywords that hold nodes are the arguments of
  the constructor \<open>Node\<close>. The fields that reflect.go never assigns (AdditionalItems,
  MaxProperties, MinProperties, PatternProperties, Dependencies, AnyOf, Not, Definitions)
  stay at their zero value in every node and are left out. A nil map and an empty map
  are both the empty association list: the code never writes into a nil map.
\<close>

record kwords =
  Version :: string
  Ref :: string
  MultipleOf :: int
  Maximum :: int
  ExclusiveMaximum :: bool
  Minimum :: int
  ExclusiveMinimum :: bool
  MaxLength :: int
  MinLength :: int
  Pattern :: string
  MaxItems :: int
  MinItems :: int
  UniqueItems :: bool
  Required :: "string list"
  Enum :: "any list"
  Type :: string
  Title :: string
  Description :: string
  Default :: any
  Format :: string
  Examples :: "any list"
  BinaryEncoding :: string

text \<open>\<open>AdditionalProperties interface{}\<close> holds nil, a bool or a node.\<close>

datatype 'a additional = AddlNil | AddlBool bool | AddlType 'a

datatype Type =
  Node (kw: kwords) (Items: "Type option") (Properties: "(string \<times> Type) list")
       (AdditionalProperties: "Type additional") (AllOf: "Type list") (OneOf: "Type list")
       (Media: "Type option")

type_synonym Definitions = "(string \<times> Type) list"

definition kw0 :: kwords where
  "kw0 = \<lparr>Version = [], Ref = [], MultipleOf = 0, Maximum = 0, ExclusiveMaximum = False,
     Minimum = 0, ExclusiveMinimum = False, MaxLength = 0, MinLength = 0, Pattern = [],
     MaxItems = 0, MinItems = 0, UniqueItems = False, Required = [], Enum = [], Type = [],
     Title = [], Description = [], Default = ANil, Format = [], Examples = [],
     BinaryEncoding = []\<rparr>"

text \<open>\<open>&Type{}\<close> with the named keywords set.\<close>

definition Type0 :: "kwords \<Rightarrow> Type" where
  "Type0 k = Node k None [] AddlNil [] [] None"

fun upd_kw :: "(kwords \<Rightarrow> kwords) \<Rightarrow> Type \<Rightarrow> Type" where
  "upd_kw f (Node k i p a al oo m) = Node (f k) i p a al oo m"

fun set_Properties :: "(string \<times> Type) list \<Rightarrow> Type \<Rightarrow> Type" where
  "set_Properties p' (Node k i p a al oo m) = Node k i p' a al oo m"

fun set_AllOf :: "Type list \<Rightarrow> Type \<Rightarrow> Type" where
  "set_AllOf al' (Node k i p a al oo m) = Node k i p a al' oo m"

fun set_OneOf :: "Type list \<Rightarrow> Type \<Rightarrow> Type" where
  "set_OneOf oo' (Node k i p a al oo m) = Node k i p a al oo' m"

record Schema =
  Root :: Type
  Definitions :: Definitions

section \<open>The Reflector and its registries\<close>

record DiscriminatorType =
  BaseType :: rtype
  DiscriminatorField :: string
  Ancestors :: "(string \<times> rtype) list"

record EnumType =
  EType :: rtype
  Values :: "any list"

record Reflector =
  AllowAdditionalProperties :: bool
  RequiredFromJSONSchemaTags :: bool
  ExpandedStruct :: bool
  IgnoredTypes :: "any list"
  TypeMapper :: "(rtype \<Rightarrow> Type option) option"
  DiscriminatedTypes :: "DiscriminatorType list"
  EnumTypes :: "EnumType list"

section \<open>Library functions used by reflect.go\<close>

text \<open>
  \<open>strings.Split(s, sep)\<close> for a one-character separator: all the pieces between
  occurrences, so the result is never empty.
\<close>

fun Split :: "string \<Rightarrow> char \<Rightarrow> string list" where
  "Split [] c = [[]]"
| "Split (x # xs) c =
     (if x = c then [] # Split xs c
      else (case Split xs c of [] \<Rightarrow> [[x]] | y # ys \<Rightarrow> (x # y) # ys))"

text \<open>
  \<open>strconv.Atoi\<close> on a 64-bit platform: an optional sign and decimal digits. The bool
  is \<open>err == nil\<close>. A syntax error gives 0, a value out of range gives the nearest
  bound of int64.
\<close>

definition is_digit :: "char \<Rightarrow> bool" where
  "is_digit c = (CHR ''0'' \<le> c \<and> c \<le> CHR ''9'')"

definition digit_val :: "char \<Rightarrow> int" where
  "digit_val c = int (of_char c) - 48"

definition Atoi :: "string \<Rightarrow> int \<times> bool" where
  "Atoi s =
     (let (neg, ds) =
            (case s of [] \<Rightarrow> (False, [])
             | c # cs \<Rightarrow> if c = CHR ''-'' then (True, cs)
                        else if c = CHR ''+'' then (False, cs) else (False, s))
      in if ds = [] \<or> \<not> list_all is_digit ds then (0, False)
         else (let n = foldl (\<lambda>a c. a * 10 + digit_val c) 0 ds;
                   v = (if neg then - n else n)
               in if v > 9223372036854775807 then (9223372036854775807, False)
                  else if v < - 9223372036854775808 then (- 9223372036854775808, False)
                  else (v, True)))"

text \<open>\<open>strconv.ParseBool\<close>, value only: the spellings of true; anything else is false.\<close>

definition ParseBool :: "string \<Rightarrow> bool" where
  "ParseBool s = (s \<in> set [''1'', ''t'', ''T'', ''TRUE'', ''true'', ''True''])"

section \<open>Field annotations\<close>

fun stringsSliceContains :: "string list \<Rightarrow> string \<Rightarrow> bool" where
  "stringsSliceContains [] item = False"
| "stringsSliceContains (s # strs) item = (if s = item then True else stringsSliceContains strs item)"

text \<open>
  \<open>tags[0]\<close> and \<open>tags[1:]\<close> are applied to results of \<open>strings.Split\<close> only, which
  have at least one element, so the index never panics; the empty case below is not
  reached.
\<close>

fun ignoredByJSONTags :: "string list \<Rightarrow> bool" where
  "ignoredByJSONTags [] = False"
| "ignoredByJSONTags (t # ts) = (t = ''-'')"

fun ignoredByJSONSchemaTags :: "string list \<Rightarrow> bool" where
  "ignoredByJSONSchemaTags [] = False"
| "ignoredByJSONSchemaTags (t # ts) = (t = ''-'')"

definition requiredFromJSONTags :: "string list \<Rightarrow> bool" where
  "requiredFromJSONTags tags =
     (if ignoredByJSONTags tags then False
      else \<not> stringsSliceContains (tl tags) ''omitempty'')"

definition requiredFromJSONSchemaTags :: "string list \<Rightarrow> bool" where
  "requiredFromJSONSchemaTags tags =
     (if ignoredByJSONSchemaTags tags then False
      else stringsSliceContains tags ''required'')"

record fieldAnnotation =
  Name :: string
  IsRequired :: bool
  Inline :: bool

definition fieldAnnotation0 :: fieldAnnotation where
  "fieldAnnotation0 = \<lparr>Name = [], IsRequired = False, Inline = False\<rparr>"

definition reflectFieldName :: "Reflector \<Rightarrow> sfield \<Rightarrow> fieldAnnotation \<times> bool" where
  "reflectFieldName r f =
     (let (jsonTags, exist) =
            (case Lookup (FTag f) ''json'' of
               Some v \<Rightarrow> (v, True)
             | None \<Rightarrow> (Get (FTag f) ''yaml'', False));
          jsonTagsList = Split jsonTags CHR '',''
      in if ignoredByJSONTags jsonTagsList then (fieldAnnotation0, exist)
         else
          (let jsonSchemaTags = Split (Get (FTag f) ''jsonschema'') CHR '',''
           in if ignoredByJSONSchemaTags jsonSchemaTags then (fieldAnnotation0, exist)
              else
               (let name = FName f;
                    required = requiredFromJSONTags jsonTagsList;
                    inlined = stringsSliceContains jsonTagsList ''inline'';
                    required = (if RequiredFromJSONSchemaTags r
                                then requiredFromJSONSchemaTags jsonSchemaTags else required);
                    name = (if hd jsonTagsList \<noteq> [] then hd jsonTagsList else name);
                    name = (if \<not> FAnonymous f \<and> FPkgPath f \<noteq> [] then [] else name);
                    name = (if FAnonymous f \<and> \<not> exist then [] else name)
                in (\<lparr>Name = name, IsRequired = required, Inline = inlined\<rparr>, exist))))"

section \<open>Keywords from struct tags\<close>

definition genericKeyword :: "Type \<Rightarrow> string \<Rightarrow> Type" where
  "genericKeyword t tag =
     (case Split tag CHR ''='' of
        [name, val] \<Rightarrow>
          if name = ''title'' then upd_kw (\<lambda>k. k\<lparr>Title := val\<rparr>) t
          else if name = ''description'' then upd_kw (\<lambda>k. k\<lparr>Description := val\<rparr>) t
          else t
      | _ \<Rightarrow> t)"

definition genericKeywords :: "Type \<Rightarrow> string list \<Rightarrow> Type" where
  "genericKeywords t tags = foldl genericKeyword t tags"

definition stringKeyword :: "Type \<Rightarrow> string \<Rightarrow> Type" where
  "stringKeyword t tag =
     (case Split tag CHR ''='' of
        [name, val] \<Rightarrow>
          if name = ''minLength'' then upd_kw (\<lambda>k. k\<lparr>MinLength := fst (Atoi val)\<rparr>) t
          else if name = ''maxLength'' then upd_kw (\<lambda>k. k\<lparr>MaxLength := fst (Atoi val)\<rparr>) t
          else if name = ''pattern'' then upd_kw (\<lambda>k. k\<lparr>Pattern := val\<rparr>) t
          else if name = ''format'' then
            (if val \<in> set [''date-time'', ''email'', ''hostname'', ''ipv4'', ''ipv6'', ''uri'']
             then upd_kw (\<lambda>k. k\<lparr>Format := val\<rparr>) t else t)
          else if name = ''default'' then upd_kw (\<lambda>k. k\<lparr>Default := AString val\<rparr>) t
          else if name = ''example'' then
            upd_kw (\<lambda>k. k\<lparr>Examples := Examples k @ [AString val]\<rparr>) t
          else t
      | _ \<Rightarrow> t)"

definition stringKeywords :: "Type \<Rightarrow> string list \<Rightarrow> Type" where
  "stringKeywords t tags = foldl stringKeyword t tags"

definition numbericKeyword :: "Type \<Rightarrow> string \<Rightarrow> Type" where
  "numbericKeyword t tag =
     (case Split tag CHR ''='' of
        [name, val] \<Rightarrow>
          if name = ''multipleOf'' then upd_kw (\<lambda>k. k\<lparr>MultipleOf := fst (Atoi val)\<rparr>) t
          else if name = ''minimum'' then upd_kw (\<lambda>k. k\<lparr>Minimum := fst (Atoi val)\<rparr>) t
          else if name = ''maximum'' then upd_kw (\<lambda>k. k\<lparr>Maximum := fst (Atoi val)\<rparr>) t
          else if name = ''exclusiveMaximum'' then
            upd_kw (\<lambda>k. k\<lparr>ExclusiveMaximum := ParseBool val\<rparr>) t
          else if name = ''exclusiveMinimum'' then
            upd_kw (\<lambda>k. k\<lparr>ExclusiveMinimum := ParseBool val\<rparr>) t
          else if name = ''default'' then upd_kw (\<lambda>k. k\<lparr>Default := AInt (fst (Atoi val))\<rparr>) t
          else if name = ''example'' then
            (if snd (Atoi val)
             then upd_kw (\<lambda>k. k\<lparr>Examples := Examples k @ [AInt (fst (Atoi val))]\<rparr>) t else t)
          else t
      | _ \<Rightarrow> t)"

definition numbericKeywords :: "Type \<Rightarrow> string list \<Rightarrow> Type" where
  "numbericKeywords t tags = foldl numbericKeyword t tags"

text \<open>The loop of \<open>arrayKeywords\<close> carries the node and the local \<open>defaultValues\<close>.\<close>

definition arrayKeyword :: "Type \<times> any list \<Rightarrow> string \<Rightarrow> Type \<times> any list" where
  "arrayKeyword acc tag =
     (case acc of (t, defaultValues) \<Rightarrow>
       (case Split tag CHR ''='' of
          [name, val] \<Rightarrow>
            if name = ''minItems'' then (upd_kw (\<lambda>k. k\<lparr>MinItems := fst (Atoi val)\<rparr>) t, defaultValues)
            else if name = ''maxItems'' then (upd_kw (\<lambda>k. k\<lparr>MaxItems := fst (Atoi val)\<rparr>) t, defaultValues)
            else if name = ''uniqueItems'' then (upd_kw (\<lambda>k. k\<lparr>UniqueItems := True\<rparr>) t, defaultValues)
            else if name = ''default'' then (t, defaultValues @ [AString val])
            else (t, defaultValues)
        | _ \<Rightarrow> (t, defaultValues)))"

definition arrayKeywords :: "Type \<Rightarrow> string list \<Rightarrow> Type" where
  "arrayKeywords t tags =
     (case foldl arrayKeyword (t, []) tags of
        (t', defaultValues) \<Rightarrow>
          if length defaultValues > 0 then upd_kw (\<lambda>k. k\<lparr>Default := ASlice defaultValues\<rparr>) t'
          else t')"

definition structKeywordsFromTags :: "Type \<Rightarrow> sfield \<Rightarrow> Type" where
  "structKeywordsFromTags t f =
     (let t = upd_kw (\<lambda>k. k\<lparr>Description := Get (FTag f) ''jsonschema_description''\<rparr>) t;
          tags = Split (Get (FTag f) ''jsonschema'') CHR '','';
          t = genericKeywords t tags
      in if Type (kw t) = ''string'' then stringKeywords t tags
         else if Type (kw t) = ''number'' then numbericKeywords t tags
         else if Type (kw t) = ''integer'' then numbericKeywords t tags
         else if Type (kw t) = ''array'' then arrayKeywords t tags
         else t)"

section \<open>Registries and small constructors\<close>

definition Version_uri :: string where
  "Version_uri = ''http://json-schema.org/draft-04/schema#''"

definition getDiscriminator :: "Reflector \<Rightarrow> rtype \<Rightarrow> DiscriminatorType option" where
  "getDiscriminator r t = find (\<lambda>d. BaseType d = t) (DiscriminatedTypes r)"

definition getEnum :: "Reflector \<Rightarrow> rtype \<Rightarrow> EnumType option" where
  "getEnum r t = find (\<lambda>d. EType d = t) (EnumTypes r)"

definition isIgnored :: "Reflector \<Rightarrow> rtype \<Rightarrow> bool" where
  "isIgnored r t = list_ex (\<lambda>ignored. TypeOf ignored = Some t) (IgnoredTypes r)"

definition emptyObjectSchema :: "bool \<Rightarrow> Type" where
  "emptyObjectSchema additionalProperties =
     (if additionalProperties
      then Node (kw0\<lparr>Type := ''object''\<rparr>) None [] (AddlBool True) [] [] None
      else Node (kw0\<lparr>Type := ''object''\<rparr>) None [] (AddlBool False) [] [] None)"

definition getTypeRef :: "string \<Rightarrow> Type" where
  "getTypeRef name = Type0 (kw0\<lparr>Version := Version_uri, Ref := ''#/definitions/'' @ name\<rparr>)"

definition getConstStringType :: "string \<Rightarrow> Type" where
  "getConstStringType v =
     Type0 (kw0\<lparr>Type := ''string'', Default := AString v, Enum := [AString v]\<rparr>)"

text \<open>\<open>definitions[name] = typ\<close>, then the reference node.\<close>

definition addToDefinitions :: "Definitions \<Rightarrow> string \<Rightarrow> Type \<Rightarrow> Type \<times> Definitions" where
  "addToDefinitions definitions name typ = (getTypeRef name, AList.update name typ definitions)"

definition defName_of :: "rtype \<Rightarrow> string \<Rightarrow> string \<Rightarrow> string" where
  "defName_of t dField dKey = Name_of t @ ''@'' @ dField @ '':'' @ dKey"

text \<open>The last statement of \<open>reflectStructFields\<close>.\<close>

definition collapseAllOf :: "Type \<Rightarrow> Type" where
  "collapseAllOf st =
     (if length (AllOf st) = 1 \<and> length (OneOf st) = 0
      then set_AllOf [] (set_OneOf (AllOf st) st) else st)"

definition integerKinds :: "kind list" where
  "integerKinds = [KInt, KInt8, KInt16, KInt32, KInt64, KUint, KUint8, KUint16, KUint32, KUint64]"

section \<open>The traversal\<close>

text \<open>
  \<open>reflectTypeToSchema\<close>, \<open>reflectStruct\<close>, \<open>reflectDiscriminatedStruct\<close> and
  \<open>reflectStructFields\<close> call each other, and an interface type sends the traversal to
  the types of the discriminator registry, which may lead back to the same interface:
  the Go code need not return. The first argument bounds the depth of the call stack;
  each of the four functions uses one unit per call, and \<open>None\<close> says that the bound
  was too small. \<open>Inl\<close> is the panic of the last line of \<open>reflectTypeToSchema\<close>. The
  map \<open>definitions\<close> and the node \<open>st\<close>, both mutated in place in Go, are passed in and
  returned. The two loops are \<open>fieldsLoop\<close> and \<open>ancestorsLoop\<close>; the latter visits the
  pairs of \<open>Ancestors\<close> in the order of the list, standing for the order in which Go
  happens to range over the map, and the unstable \<open>sort.Slice\<close> is an insertion sort
  on the \<open>Ref\<close> key.
\<close>

datatype error = UnsupportedType rtype

function (sequential) reflectTypeToSchema ::
      "nat \<Rightarrow> Reflector \<Rightarrow> Definitions \<Rightarrow> rtype \<Rightarrow> (error + Type \<times> Definitions) option"
and reflectStruct ::
      "nat \<Rightarrow> Reflector \<Rightarrow> Definitions \<Rightarrow> rtype \<Rightarrow> (error + Type \<times> Definitions) option"
and reflectDiscriminatedStruct ::
      "nat \<Rightarrow> Reflector \<Rightarrow> Definitions \<Rightarrow> rtype \<Rightarrow> string \<Rightarrow> string
         \<Rightarrow> (error + Type \<times> Definitions) option"
and ancestorsLoop ::
      "nat \<Rightarrow> Reflector \<Rightarrow> Definitions \<Rightarrow> string \<Rightarrow> (string \<times> rtype) list \<Rightarrow> Type list
         \<Rightarrow> (error + Type list \<times> Definitions) option"
and reflectStructFields ::
      "nat \<Rightarrow> Reflector \<Rightarrow> Type \<Rightarrow> Definitions \<Rightarrow> rtype \<Rightarrow> (error + Type \<times> Definitions) option"
and fieldsLoop ::
      "nat \<Rightarrow> Reflector \<Rightarrow> Type \<Rightarrow> Definitions \<Rightarrow> sfield list
         \<Rightarrow> (error + Type \<times> Definitions) option"
where
  "reflectTypeToSchema 0 r definitions t = None"
| "reflectTypeToSchema (Suc n) r definitions t =
     (if map_of definitions (Name_of t) \<noteq> None
      then Some (Inr (Type0 (kw0\<lparr>Ref := ''#/definitions/'' @ Name_of t\<rparr>), definitions))
      else if Implements t protoEnumType
      then Some (Inr (Node kw0 None [] AddlNil []
                        [Type0 (kw0\<lparr>Type := ''string''\<rparr>), Type0 (kw0\<lparr>Type := ''integer''\<rparr>)] None,
                      definitions))
      else case getEnum r t of
        Some enumType \<Rightarrow>
          Some (Inr (Type0 (kw0\<lparr>Default := (if length (Values enumType) > 0
                                               then hd (Values enumType) else ANil),
                                   Enum := Values enumType\<rparr>), definitions))
      | None \<Rightarrow>
        (case (case TypeMapper r of None \<Rightarrow> None | Some mapper \<Rightarrow> mapper t) of
           Some mapped \<Rightarrow> Some (Inr (mapped, definitions))
         | None \<Rightarrow>
           if t = ipType then Some (Inr (Type0 (kw0\<lparr>Type := ''string'', Format := ''ipv4''\<rparr>), definitions))
           else
           (case t of
              StructT i fs \<Rightarrow>
                if t = timeType
                then Some (Inr (Type0 (kw0\<lparr>Type := ''string'', Format := ''date-time''\<rparr>), definitions))
                else if t = uriType
                then Some (Inr (Type0 (kw0\<lparr>Type := ''string'', Format := ''uri''\<rparr>), definitions))
                else reflectStruct n r definitions t
            | MapT i k v \<Rightarrow>
                (case reflectTypeToSchema n r definitions v of
                   None \<Rightarrow> None
                 | Some (Inl e) \<Rightarrow> Some (Inl e)
                 | Some (Inr (valueSchema, definitions')) \<Rightarrow>
                     Some (Inr (Node (kw0\<lparr>Type := ''object''\<rparr>) None [] (AddlType valueSchema) [] [] None,
                                definitions')))
            | SliceT i e \<Rightarrow>
                if t = byteSliceType
                then Some (Inr (Node (kw0\<lparr>Type := ''string''\<rparr>) None [] AddlNil [] []
                                  (Some (Type0 (kw0\<lparr>BinaryEncoding := ''base64''\<rparr>))), definitions))
                else
                (case reflectTypeToSchema n r definitions e of
                   None \<Rightarrow> None
                 | Some (Inl err) \<Rightarrow> Some (Inl err)
                 | Some (Inr (items, definitions')) \<Rightarrow>
                     Some (Inr (Node (kw0\<lparr>Type := ''array''\<rparr>) (Some items) [] AddlNil [] [] None,
                                definitions')))
            | ArrayT i len e \<Rightarrow>
                if t = byteSliceType
                then Some (Inr (Node (kw0\<lparr>MinItems := int len, MaxItems := int len, Type := ''string''\<rparr>)
                                  None [] AddlNil [] []
                                  (Some (Type0 (kw0\<lparr>BinaryEncoding := ''base64''\<rparr>))), definitions))
                else
                (case reflectTypeToSchema n r definitions e of
                   None \<Rightarrow> None
                 | Some (Inl err) \<Rightarrow> Some (Inl err)
                 | Some (Inr (items, definitions')) \<Rightarrow>
                     Some (Inr (Node (kw0\<lparr>MinItems := int len, MaxItems := int len, Type := ''array''\<rparr>)
                                  (Some items) [] AddlNil [] [] None,
                                definitions')))
            | InterfaceT i \<Rightarrow>
                (case getDiscriminator r t of
                   Some d \<Rightarrow>
                     (case ancestorsLoop n r definitions (DiscriminatorField d) (Ancestors d) [] of
                        None \<Rightarrow> None
                      | Some (Inl err) \<Rightarrow> Some (Inl err)
                      | Some (Inr (ancestorTypes, definitions')) \<Rightarrow>
                          (let schema = Node kw0 None [] (AddlBool False) []
                                          (sort_key (\<lambda>a. Ref (kw a)) ancestorTypes) None
                           in if Name_of t \<noteq> []
                              then Some (Inr (addToDefinitions definitions' (Name_of t) schema))
                              else Some (Inr (schema, definitions'))))
                 | None \<Rightarrow>
                     (let schema = Node (kw0\<lparr>Type := ''object''\<rparr>) None [] (AddlBool True) [] [] None
                      in if Name_of t \<noteq> []
                         then Some (Inr (addToDefinitions definitions (Name_of t) schema))
                         else Some (Inr (schema, definitions))))
            | BasicT i b \<Rightarrow>
                if basic_kind b \<in> set integerKinds
                then Some (Inr (Type0 (kw0\<lparr>Type := ''integer''\<rparr>), definitions))
                else if basic_kind b \<in> set [KFloat32, KFloat64]
                then Some (Inr (Type0 (kw0\<lparr>Type := ''number''\<rparr>), definitions))
                else if basic_kind b = KBool
                then Some (Inr (Type0 (kw0\<lparr>Type := ''boolean''\<rparr>), definitions))
                else if basic_kind b = KString
                then Some (Inr (Type0 (kw0\<lparr>Type := ''string''\<rparr>), definitions))
                else Some (Inl (UnsupportedType t))
            | PtrT ms e \<Rightarrow> reflectTypeToSchema n r definitions e
            | ChanT i e \<Rightarrow> Some (Inl (UnsupportedType t))
            | FuncT i \<Rightarrow> Some (Inl (UnsupportedType t)))))"
| "reflectStruct 0 r definitions t = None"
| "reflectStruct (Suc n) r definitions t =
     (let isIgnored = isIgnored r t;
          st = emptyObjectSchema (AllowAdditionalProperties r \<or> isIgnored)
      in if \<not> isIgnored
         then (case reflectStructFields n r st definitions t of
                 None \<Rightarrow> None
               | Some (Inl err) \<Rightarrow> Some (Inl err)
               | Some (Inr (st', definitions')) \<Rightarrow>
                   Some (Inr (addToDefinitions definitions' (Name_of t) st')))
         else Some (Inr (addToDefinitions definitions (Name_of t) st)))"
| "reflectDiscriminatedStruct 0 r definitions t dField dKey = None"
| "reflectDiscriminatedStruct (Suc n) r definitions t dField dKey =
     (let defName = defName_of t dField dKey;
          isIgnored = isIgnored r t;
          st = emptyObjectSchema (AllowAdditionalProperties r \<or> isIgnored);
          st = set_Properties (AList.update dField (getConstStringType dKey) (Properties st)) st;
          st = upd_kw (\<lambda>k. k\<lparr>Required := Required k @ [dField]\<rparr>) st
      in if \<not> isIgnored
         then (case reflectStructFields n r st definitions t of
                 None \<Rightarrow> None
               | Some (Inl err) \<Rightarrow> Some (Inl err)
               | Some (Inr (st', definitions')) \<Rightarrow>
                   Some (Inr (addToDefinitions definitions' defName st')))
         else Some (Inr (addToDefinitions definitions defName st)))"
| "ancestorsLoop n r definitions dField [] ancestorTypes = Some (Inr (ancestorTypes, definitions))"
| "ancestorsLoop n r definitions dField (da # rest) ancestorTypes =
     (case reflectDiscriminatedStruct n r definitions (snd da) dField (fst da) of
        None \<Rightarrow> None
      | Some (Inl err) \<Rightarrow> Some (Inl err)
      | Some (Inr (ancRef, definitions')) \<Rightarrow>
          ancestorsLoop n r definitions' dField rest
            (ancestorTypes @ [upd_kw (\<lambda>k. k\<lparr>Title := fst da\<rparr>) ancRef]))"
| "reflectStructFields 0 r st definitions t = None"
| "reflectStructFields (Suc n) r st definitions t =
     (let t = (case t of PtrT ms e \<Rightarrow> e | _ \<Rightarrow> t)
      in case t of
           StructT i fs \<Rightarrow>
             (case fieldsLoop n r st definitions fs of
                None \<Rightarrow> None
              | Some (Inl err) \<Rightarrow> Some (Inl err)
              | Some (Inr (st', definitions')) \<Rightarrow> Some (Inr (collapseAllOf st', definitions')))
         | _ \<Rightarrow> Some (Inr (st, definitions)))"
| "fieldsLoop n r st definitions [] = Some (Inr (st, definitions))"
| "fieldsLoop n r st definitions (f # fs) =
     (case reflectFieldName r f of
        (annotation, exist) \<Rightarrow>
          if Inline annotation
          then (case reflectTypeToSchema n r definitions (FType f) of
                  None \<Rightarrow> None
                | Some (Inl err) \<Rightarrow> Some (Inl err)
                | Some (Inr (inlined, definitions')) \<Rightarrow>
                    fieldsLoop n r (set_AllOf (AllOf st @ [inlined]) st) definitions' fs)
          else if Name annotation = []
          then (if FAnonymous f \<and> \<not> exist
                then (case reflectStructFields n r st definitions (FType f) of
                        None \<Rightarrow> None
                      | Some (Inl err) \<Rightarrow> Some (Inl err)
                      | Some (Inr (st', definitions')) \<Rightarrow> fieldsLoop n r st' definitions' fs)
                else fieldsLoop n r st definitions fs)
          else (case reflectTypeToSchema n r definitions (FType f) of
                  None \<Rightarrow> None
                | Some (Inl err) \<Rightarrow> Some (Inl err)
                | Some (Inr (property, definitions')) \<Rightarrow>
                    (let property = structKeywordsFromTags property f;
                         st = set_Properties (AList.update (Name annotation) property (Properties st)) st;
                         st = (if IsRequired annotation
                               then upd_kw (\<lambda>k. k\<lparr>Required := Required k @ [Name annotation]\<rparr>) st
                               else st)
                     in fieldsLoop n r st definitions' fs)))"
  by pat_completeness auto

termination
  apply (relation "inv_image (less_than <*lex*> less_than)
        (\<lambda>x. case x of
            Inl (Inl (n, _)) \<Rightarrow> (n, 0)
          | Inl (Inr (Inl (n, _))) \<Rightarrow> (n, 0)
          | Inl (Inr (Inr (n, _))) \<Rightarrow> (n, 0)
          | Inr (Inl (n, r, d, fld, xs, acc)) \<Rightarrow> (n, Suc (length xs))
          | Inr (Inr (Inl (n, _))) \<Rightarrow> (n, 0)
          | Inr (Inr (Inr (n, r, st, d, fs))) \<Rightarrow> (n, Suc (length fs)))")
   apply (intro wf_inv_image wf_lex_prod wf_less_than)
  apply simp_all
  done

section \<open>Top-level assembly and registration\<close>

definition ReflectFromType :: "nat \<Rightarrow> Reflector \<Rightarrow> rtype \<Rightarrow> (error + Schema) option" where
  "ReflectFromType n r t =
     (let definitions = [] in
      if ExpandedStruct r
      then (let st = Node (kw0\<lparr>Version := Version_uri, Type := ''object''\<rparr>) None []
                       (AddlBool (AllowAdditionalProperties r)) [] [] None
            in case reflectStructFields n r st definitions t of
                 None \<Rightarrow> None
               | Some (Inl err) \<Rightarrow> Some (Inl err)
               | Some (Inr (st', definitions')) \<Rightarrow>
                   (case reflectStruct n r definitions' t of
                      None \<Rightarrow> None
                    | Some (Inl err) \<Rightarrow> Some (Inl err)
                    | Some (Inr (ref, definitions'')) \<Rightarrow>
                        Some (Inr \<lparr>Root = st',
                                   Definitions = AList.delete (Name_of t) definitions''\<rparr>)))
      else (case reflectTypeToSchema n r definitions t of
              None \<Rightarrow> None
            | Some (Inl err) \<Rightarrow> Some (Inl err)
            | Some (Inr (root, definitions')) \<Rightarrow>
                Some (Inr \<lparr>Root = root, Definitions = definitions'\<rparr>)))"

text \<open>
  The two registration methods return the error (\<open>None\<close> is Go's nil) together with the
  Reflector as the call leaves it.
\<close>

datatype regError =
    ValueNotOfType any rtype
  | BaseTypeNotInterface rtype
  | NotImplementing rtype rtype

definition RegisterEnumType ::
    "Reflector \<Rightarrow> rtype \<Rightarrow> any list \<Rightarrow> regError option \<times> Reflector" where
  "RegisterEnumType r enumType vals =
     (case find (\<lambda>v. TypeOf v \<noteq> Some enumType) vals of
        Some v \<Rightarrow> (Some (ValueNotOfType v enumType), r)
      | None \<Rightarrow>
          (None, r\<lparr>EnumTypes := EnumTypes r @ [\<lparr>EType = enumType, Values = vals\<rparr>]\<rparr>))"

definition RegisterDiscriminatorType ::
    "Reflector \<Rightarrow> rtype \<Rightarrow> string \<Rightarrow> (string \<times> rtype) list \<Rightarrow> regError option \<times> Reflector" where
  "RegisterDiscriminatorType r baseType discriminatorField ancestors =
     (if Kind_of baseType \<noteq> KInterface then (Some (BaseTypeNotInterface baseType), r)
      else case find (\<lambda>a. \<not> Implements (snd a) baseType) ancestors of
             Some a \<Rightarrow> (Some (NotImplementing (snd a) baseType), r)
           | None \<Rightarrow>
               (None, r\<lparr>DiscriminatedTypes := DiscriminatedTypes r @
                          [\<lparr>BaseType = baseType, DiscriminatorField = discriminatorField,
                            Ancestors = ancestors\<rparr>]\<rparr>))"

section \<open>Auxiliary definitions for the statements\<close>

definition unionNode :: "Type list \<Rightarrow> Type" where
  "unionNode ancestorTypes =
     Node kw0 None [] (AddlBool False) [] (sort_key (\<lambda>a. Ref (kw a)) ancestorTypes) None"

definition openObject :: Type where
  "openObject = Node (kw0\<lparr>Type := ''object''\<rparr>) None [] (AddlBool True) [] [] None"

definition registerNamed :: "rtype \<Rightarrow> Type \<Rightarrow> Definitions \<Rightarrow> Type \<times> Definitions" where
  "registerNamed t schema definitions =
     (if Name_of t \<noteq> [] then addToDefinitions definitions (Name_of t) schema
      else (schema, definitions))"


text \<open>The tiers of \<open>reflectTypeToSchema\<close> that come before the dispatch on the kind.\<close>

definition shortCircuit :: "Reflector \<Rightarrow> Definitions \<Rightarrow> rtype \<Rightarrow> Type option" where
  "shortCircuit r definitions t =
     (if map_of definitions (Name_of t) \<noteq> None
      then Some (Type0 (kw0\<lparr>Ref := ''#/definitions/'' @ Name_of t\<rparr>))
      else if Implements t protoEnumType
      then Some (Node kw0 None [] AddlNil []
                   [Type0 (kw0\<lparr>Type := ''string''\<rparr>), Type0 (kw0\<lparr>Type := ''integer''\<rparr>)] None)
      else case getEnum r t of
        Some enumType \<Rightarrow>
          Some (Type0 (kw0\<lparr>Default := (if length (Values enumType) > 0
                                         then hd (Values enumType) else ANil),
                             Enum := Values enumType\<rparr>))
      | None \<Rightarrow>
        (case (case TypeMapper r of None \<Rightarrow> None | Some mapper \<Rightarrow> mapper t) of
           Some mapped \<Rightarrow> Some mapped
         | None \<Rightarrow>
           if t = ipType then Some (Type0 (kw0\<lparr>Type := ''string'', Format := ''ipv4''\<rparr>))
           else None))"

text \<open>The non-empty \<open>Ref\<close> strings of a node and of every node below it.\<close>

fun refs :: "Type \<Rightarrow> string list" where
  "refs (Node k i p a al oo m) =
     (if Ref k = [] then [] else [Ref k]) @
     (case i of None \<Rightarrow> [] | Some x \<Rightarrow> refs x) @
     concat (map (\<lambda>x. refs (snd x)) p) @
     (case a of AddlType x \<Rightarrow> refs x | _ \<Rightarrow> []) @
     concat (map refs al) @ concat (map refs oo) @
     (case m of None \<Rightarrow> [] | Some x \<Rightarrow> refs x)"

text \<open>The keys of a Definitions map.\<close>

definition keys :: "Definitions \<Rightarrow> string set" where
  "keys defs = fst ` set defs"

text \<open>Every \<open>$ref\<close> in the node is \<open>#/definitions/<name>\<close> for a name in \<open>K\<close>.\<close>

definition resolves :: "string set \<Rightarrow> Type \<Rightarrow> bool" where
  "resolves K t = (\<forall>ref \<in> set (refs t). \<exists>name \<in> K. ref = ''#/definitions/'' @ name)"

definition defs_resolve :: "string set \<Rightarrow> Definitions \<Rightarrow> bool" where
  "defs_resolve K defs = (\<forall>v \<in> snd ` set defs. resolves K v)"

text \<open>The nodes a \<open>TypeMapper\<close> returns carry no \<open>$ref\<close>.\<close>

definition mapper_refless :: "Reflector \<Rightarrow> bool" where
  "mapper_refless r =
     (\<forall>mapper t node. TypeMapper r = Some mapper \<longrightarrow> mapper t = Some node \<longrightarrow> refs node = [])"

text \<open>What a traversal step keeps: no key is lost, and every reference resolves.\<close>

definition refs_post :: "Definitions \<Rightarrow> Definitions \<Rightarrow> Type list \<Rightarrow> bool" where
  "refs_post defs defs' nodes \<longleftrightarrow>
     keys defs \<subseteq> keys defs' \<and> defs_resolve (keys defs') defs' \<and>
     (\<forall>x \<in> set nodes. resolves (keys defs') x)"

text \<open>The last three statements of the loop body of \<open>reflectStructFields\<close>.\<close>

definition addProperty :: "fieldAnnotation \<Rightarrow> Type \<Rightarrow> Type \<Rightarrow> Type" where
  "addProperty a property st =
     (let st = set_Properties (AList.update (Name a) property (Properties st)) st
      in if IsRequired a then upd_kw (\<lambda>k. k\<lparr>Required := Required k @ [Name a]\<rparr>) st else st)"

text \<open>The node of \<open>reflectDiscriminatedStruct\<close> before the fields are traversed.\<close>

definition variantShell :: "bool \<Rightarrow> string \<Rightarrow> string \<Rightarrow> Type" where
  "variantShell b dField dKey =
     Node (kw0\<lparr>Required := [dField], Type := ''object''\<rparr>) None
       [(dField, getConstStringType dKey)] (AddlBool b) [] [] None"

text \<open>The root node that \<open>ReflectFromType\<close> starts from when \<open>ExpandedStruct\<close> is set.\<close>

definition expandedRoot :: "Reflector \<Rightarrow> Type" where
  "expandedRoot r = Node (kw0\<lparr>Version := Version_uri, Type := ''object''\<rparr>) None []
                      (AddlBool (AllowAdditionalProperties r)) [] [] None"

text \<open>The tag that \<open>reflectFieldName\<close> reads names and options from: json, else yaml.\<close>

definition serializationTag :: "sfield \<Rightarrow> string" where
  "serializationTag f =
     (case Lookup (FTag f) ''json'' of Some v \<Rightarrow> v | None \<Rightarrow> Get (FTag f) ''yaml'')"




text \<open>The call ended in the panic.\<close>

definition panicked :: "(error + 'a) option \<Rightarrow> bool" where
  "panicked x = (case x of Some (Inl e) \<Rightarrow> True | _ \<Rightarrow> False)"


text \<open>The fields of a struct type, behind at most one pointer, as \<open>reflectStructFields\<close>
  reads them; none for any other type.\<close>

definition structFields :: "rtype \<Rightarrow> sfield list" where
  "structFields t =
     (case (case t of PtrT ms e \<Rightarrow> e | _ \<Rightarrow> t) of StructT i fs \<Rightarrow> fs | _ \<Rightarrow> [])"

text \<open>
  The annotations of the fields that become properties of the enclosing object, in the
  order of declaration: a named field that is not inline gives its annotation, an
  embedded field without a json tag gives those of its own fields, every other field
  gives none.
\<close>

function contributed :: "Reflector \<Rightarrow> sfield list \<Rightarrow> fieldAnnotation list" where
  "contributed r [] = []"
| "contributed r (f # fs) =
     (case reflectFieldName r f of
        (a, ex) \<Rightarrow>
          if Inline a then []
          else if Name a = []
          then (if FAnonymous f \<and> \<not> ex then contributed r (structFields (FType f)) else [])
          else [a]) @ contributed r fs"
  by pat_completeness auto
termination
proof (relation "measure (\<lambda>(r, fs). size_list size fs)")
  show "((r, structFields (FType f)), (r, f # fs)) \<in> measure (\<lambda>(r, fs). size_list size fs)"
    for r f fs
  proof -
    have a: "size_list size (structFields t) \<le> size t" for t
      by (cases t; simp add: structFields_def split: rtype.splits)
    have "size (FType f) < size f" by (cases f) simp
    with a[of "FType f"] show ?thesis by simp
  qed
qed simp_all

definition requiredNames :: "Reflector \<Rightarrow> sfield list \<Rightarrow> string list" where
  "requiredNames r fs = map Name (filter IsRequired (contributed r fs))"



text \<open>The call returned or panicked within the bound on the depth of the call stack.\<close>

definition finished :: "'a option \<Rightarrow> bool" where
  "finished x = (x \<noteq> None)"






section \<open>Example types and configurations\<close>

text \<open>
  The zero Reflector (\<open>&Reflector{}\<close>) and types of reflect\_test.go, with further small
  types on which the properties below are evaluated.
\<close>

definition named :: "string \<Rightarrow> tinfo" where
  "named n = \<lparr>tname = n, tpkg = ''main'', tmethods = []\<rparr>"

definition Reflector0 :: Reflector where
  "Reflector0 = \<lparr>AllowAdditionalProperties = False, RequiredFromJSONSchemaTags = False,
     ExpandedStruct = False, IgnoredTypes = [], TypeMapper = None, DiscriminatedTypes = [],
     EnumTypes = []\<rparr>"

definition MyEnum :: rtype where
  "MyEnum = BasicT (named ''MyEnum'') BString"

definition CaseX_Interface :: rtype where
  "CaseX_Interface = InterfaceT (named ''CaseX_Interface'')"

definition CaseX_StructA :: rtype where
  "CaseX_StructA = StructT (named ''CaseX_StructA'')
     [StructField ''A'' [] stringT [(''json'', ''a'')] False]"

definition CaseX_StructB :: rtype where
  "CaseX_StructB = StructT (named ''CaseX_StructB'')
     [StructField ''B'' [] stringT [(''json'', ''b'')] False]"

definition rCaseX :: Reflector where
  "rCaseX = snd (RegisterDiscriminatorType Reflector0 CaseX_Interface ''typ''
                   [(''typB'', CaseX_StructB), (''typA'', CaseX_StructA)])"

definition CaseX_WithInlinedDiscriminatedType :: rtype where
  "CaseX_WithInlinedDiscriminatedType = StructT (named ''CaseX_WithInlinedDiscriminatedType'')
     [StructField ''CaseX_Interface'' [] CaseX_Interface [(''json'', '',inline'')] True]"

definition caseXSchema :: Schema where
  "caseXSchema =
     \<lparr>Root = getTypeRef ''CaseX_WithInlinedDiscriminatedType'',
      Definitions =
        [(''CaseX_StructB@typ:typB'',
          Node (kw0\<lparr>Required := [''typ'', ''b''], Type := ''object''\<rparr>) None
            [(''typ'', getConstStringType ''typB''), (''b'', Type0 (kw0\<lparr>Type := ''string''\<rparr>))]
            (AddlBool False) [] [] None),
         (''CaseX_StructA@typ:typA'',
          Node (kw0\<lparr>Required := [''typ'', ''a''], Type := ''object''\<rparr>) None
            [(''typ'', getConstStringType ''typA''), (''a'', Type0 (kw0\<lparr>Type := ''string''\<rparr>))]
            (AddlBool False) [] [] None),
         (''CaseX_Interface'',
          Node kw0 None [] (AddlBool False) []
            [upd_kw (\<lambda>k. k\<lparr>Title := ''typA''\<rparr>) (getTypeRef ''CaseX_StructA@typ:typA''),
             upd_kw (\<lambda>k. k\<lparr>Title := ''typB''\<rparr>) (getTypeRef ''CaseX_StructB@typ:typB'')] None),
         (''CaseX_WithInlinedDiscriminatedType'',
          Node (kw0\<lparr>Type := ''object''\<rparr>) None [] (AddlBool False) []
            [getTypeRef ''CaseX_Interface''] None)]\<rparr>"

definition Outer :: rtype where
  "Outer = StructT (named ''Outer'')
     [StructField ''Inner'' [] (StructT unnamed [StructField ''X'' [] stringT [] False]) [] False,
      StructField ''Photo'' [] byteSliceType [] False]"

definition Hidden :: rtype where
  "Hidden = StructT (named ''Hidden'') [StructField ''Secret'' [] stringT [] False]"

definition WithHidden :: rtype where
  "WithHidden = StructT (named ''WithHidden'')
     [StructField ''Hidden'' [] Hidden [(''jsonschema'', ''-'')] True]"

definition rIgnoreA :: Reflector where
  "rIgnoreA = Reflector0\<lparr>IgnoredTypes := [AValue CaseX_StructA ''CaseX_StructA{}'']\<rparr>"


definition otherConfig :: rtype where
  "otherConfig = StructT \<lparr>tname = ''Config'', tpkg = ''other'', tmethods = []\<rparr>
     [StructField ''Level'' [] intT [(''json'', ''level'')] False]"

definition Config :: rtype where
  "Config = StructT (named ''Config'')
     [StructField ''Inner'' [] otherConfig [(''json'', ''inner'')] False]"

definition rExpanded :: Reflector where
  "rExpanded = Reflector0\<lparr>ExpandedStruct := True\<rparr>"

definition CustomTime :: rtype where
  "CustomTime = StructT (named ''CustomTime'') []"

definition CustomTypeField :: rtype where
  "CustomTypeField = StructT (named ''CustomTypeField'')
     [StructField ''CreatedAt'' [] CustomTime [] False]"

definition rMapper :: Reflector where
  "rMapper = Reflector0\<lparr>TypeMapper :=
     Some (\<lambda>t. if t = CustomTime then Some (Type0 (kw0\<lparr>Ref := ''#/definitions/Timestamp''\<rparr>)) else None)\<rparr>"

definition DupNames :: rtype where
  "DupNames = StructT (named ''DupNames'')
     [StructField ''A'' [] intT [(''json'', ''x'')] False,
      StructField ''B'' [] intT [(''json'', ''x,omitempty'')] False]"

definition InlinedStruct :: rtype where
  "InlinedStruct = StructT (named ''InlinedStruct'')
     [StructField ''A'' [] stringT [(''json'', ''a'')] False]"

definition StructWithInline :: rtype where
  "StructWithInline = StructT (named ''StructWithInline'')
     [StructField ''InlinedStruct'' [] InlinedStruct [(''json'', '',inline'')] True]"

definition TwoFields :: rtype where
  "TwoFields = StructT (named ''TwoFields'')
     [StructField ''ID'' [] intT [(''json'', ''id'')] False,
      StructField ''Friends'' [] (SliceT unnamed intT) [(''json'', ''friends,omitempty'')] False]"

definition twoFieldsNode :: Type where
  "twoFieldsNode =
     Node (kw0\<lparr>Required := [''id''], Type := ''object''\<rparr>) None
       [(''id'', Type0 (kw0\<lparr>Type := ''integer''\<rparr>)),
        (''friends'', Node (kw0\<lparr>Type := ''array''\<rparr>) (Some (Type0 (kw0\<lparr>Type := ''integer''\<rparr>)))
                        [] AddlNil [] [] None)]
       (AddlBool False) [] [] None"




section \<open>Verified properties\<close>

subsection \<open>Unfolding the dispatch\<close>

lemma rtts_short:
  assumes "shortCircuit r defs t = Some node"
  shows "reflectTypeToSchema (Suc n) r defs t = Some (Inr (node, defs))"
proof (cases "map_of defs (Name_of t) \<noteq> None")
  case True
  with assms show ?thesis
    by (simp add: shortCircuit_def split del: if_split cong: if_weak_cong)
next
  case hit: False
  show ?thesis
  proof (cases "Implements t protoEnumType")
    case True
    with assms hit show ?thesis
      by (simp add: shortCircuit_def split del: if_split cong: if_weak_cong)
  next
    case proto: False
    show ?thesis
    proof (cases "getEnum r t")
      case (Some e)
      with assms hit proto show ?thesis
        by (simp add: shortCircuit_def split del: if_split cong: if_weak_cong)
    next
      case enum: None
      show ?thesis
      proof (cases "(case TypeMapper r of None \<Rightarrow> None | Some mapper \<Rightarrow> mapper t)")
        case (Some m)
        with assms hit proto enum show ?thesis
          by (simp add: shortCircuit_def split del: if_split cong: if_weak_cong)
      next
        case mapper: None
        show ?thesis
        proof (cases "t = ipType")
          case True
          with assms hit proto enum mapper show ?thesis
            unfolding True
            by (simp add: shortCircuit_def split del: if_split cong: if_weak_cong)
        next
          case False
          with assms hit proto enum mapper show ?thesis
            by (simp add: shortCircuit_def split del: if_split cong: if_weak_cong)
        qed
      qed
    qed
  qed
qed

lemma shortCircuit_None_iff:
  "shortCircuit r defs t = None \<longleftrightarrow>
     map_of defs (Name_of t) = None \<and> \<not> Implements t protoEnumType \<and> getEnum r t = None \<and>
     (case TypeMapper r of None \<Rightarrow> None | Some mapper \<Rightarrow> mapper t) = None \<and> t \<noteq> ipType"
  by (auto simp: shortCircuit_def split: option.splits)

lemma rtts_kind:
  assumes "shortCircuit r defs t = None"
  shows "reflectTypeToSchema (Suc n) r defs t =
           (case t of
              StructT i fs \<Rightarrow>
                if t = timeType
                then Some (Inr (Type0 (kw0\<lparr>Type := ''string'', Format := ''date-time''\<rparr>), defs))
                else if t = uriType
                then Some (Inr (Type0 (kw0\<lparr>Type := ''string'', Format := ''uri''\<rparr>), defs))
                else reflectStruct n r defs t
            | MapT i k v \<Rightarrow>
                (case reflectTypeToSchema n r defs v of
                   None \<Rightarrow> None
                 | Some (Inl e) \<Rightarrow> Some (Inl e)
                 | Some (Inr (valueSchema, defs')) \<Rightarrow>
                     Some (Inr (Node (kw0\<lparr>Type := ''object''\<rparr>) None [] (AddlType valueSchema) [] [] None,
                                defs')))
            | SliceT i e \<Rightarrow>
                if t = byteSliceType
                then Some (Inr (Node (kw0\<lparr>Type := ''string''\<rparr>) None [] AddlNil [] []
                                  (Some (Type0 (kw0\<lparr>BinaryEncoding := ''base64''\<rparr>))), defs))
                else
                (case reflectTypeToSchema n r defs e of
                   None \<Rightarrow> None
                 | Some (Inl err) \<Rightarrow> Some (Inl err)
                 | Some (Inr (items, defs')) \<Rightarrow>
                     Some (Inr (Node (kw0\<lparr>Type := ''array''\<rparr>) (Some items) [] AddlNil [] [] None,
                                defs')))
            | ArrayT i len e \<Rightarrow>
                (case reflectTypeToSchema n r defs e of
                   None \<Rightarrow> None
                 | Some (Inl err) \<Rightarrow> Some (Inl err)
                 | Some (Inr (items, defs')) \<Rightarrow>
                     Some (Inr (Node (kw0\<lparr>MinItems := int len, MaxItems := int len, Type := ''array''\<rparr>)
                                  (Some items) [] AddlNil [] [] None,
                                defs')))
            | InterfaceT i \<Rightarrow>
                (case getDiscriminator r t of
                   Some d \<Rightarrow>
                     (case ancestorsLoop n r defs (DiscriminatorField d) (Ancestors d) [] of
                        None \<Rightarrow> None
                      | Some (Inl err) \<Rightarrow> Some (Inl err)
                      | Some (Inr (ancestorTypes, defs')) \<Rightarrow>
                          Some (Inr (registerNamed t (unionNode ancestorTypes) defs')))
                 | None \<Rightarrow> Some (Inr (registerNamed t openObject defs)))
            | BasicT i b \<Rightarrow>
                if basic_kind b \<in> set integerKinds
                then Some (Inr (Type0 (kw0\<lparr>Type := ''integer''\<rparr>), defs))
                else if basic_kind b \<in> set [KFloat32, KFloat64]
                then Some (Inr (Type0 (kw0\<lparr>Type := ''number''\<rparr>), defs))
                else if basic_kind b = KBool
                then Some (Inr (Type0 (kw0\<lparr>Type := ''boolean''\<rparr>), defs))
                else if basic_kind b = KString
                then Some (Inr (Type0 (kw0\<lparr>Type := ''string''\<rparr>), defs))
                else Some (Inl (UnsupportedType t))
            | PtrT ms e \<Rightarrow> reflectTypeToSchema n r defs e
            | ChanT i e \<Rightarrow> Some (Inl (UnsupportedType t))
            | FuncT i \<Rightarrow> Some (Inl (UnsupportedType t)))"
proof -
  from assms have c:
    "map_of defs (Name_of t) = None" "\<not> Implements t protoEnumType" "getEnum r t = None"
    "(case TypeMapper r of None \<Rightarrow> None | Some mapper \<Rightarrow> mapper t) = None" "t \<noteq> ipType"
    by (simp_all add: shortCircuit_None_iff)
  have head: "reflectTypeToSchema (Suc n) r defs t =
     (case t of
              StructT i fs \<Rightarrow>
                if t = timeType
                then Some (Inr (Type0 (kw0\<lparr>Type := ''string'', Format := ''date-time''\<rparr>), defs))
                else if t = uriType
                then Some (Inr (Type0 (kw0\<lparr>Type := ''string'', Format := ''uri''\<rparr>), defs))
                else reflectStruct n r defs t
            | MapT i k v \<Rightarrow>
                (case reflectTypeToSchema n r defs v of
                   None \<Rightarrow> None
                 | Some (Inl e) \<Rightarrow> Some (Inl e)
                 | Some (Inr (valueSchema, definitions')) \<Rightarrow>
                     Some (Inr (Node (kw0\<lparr>Type := ''object''\<rparr>) None [] (AddlType valueSchema) [] [] None,
                                definitions')))
            | SliceT i e \<Rightarrow>
                if t = byteSliceType
                then Some (Inr (Node (kw0\<lparr>Type := ''string''\<rparr>) None [] AddlNil [] []
                                  (Some (Type0 (kw0\<lparr>BinaryEncoding := ''base64''\<rparr>))), defs))
                else
                (case reflectTypeToSchema n r defs e of
                   None \<Rightarrow> None
                 | Some (Inl err) \<Rightarrow> Some (Inl err)
                 | Some (Inr (items, definitions')) \<Rightarrow>
                     Some (Inr (Node (kw0\<lparr>Type := ''array''\<rparr>) (Some items) [] AddlNil [] [] None,
                                definitions')))
            | ArrayT i len e \<Rightarrow>
                if t = byteSliceType
                then Some (Inr (Node (kw0\<lparr>MinItems := int len, MaxItems := int len, Type := ''string''\<rparr>)
                                  None [] AddlNil [] []
                                  (Some (Type0 (kw0\<lparr>BinaryEncoding := ''base64''\<rparr>))), defs))
                else
                (case reflectTypeToSchema n r defs e of
                   None \<Rightarrow> None
                 | Some (Inl err) \<Rightarrow> Some (Inl err)
                 | Some (Inr (items, definitions')) \<Rightarrow>
                     Some (Inr (Node (kw0\<lparr>MinItems := int len, MaxItems := int len, Type := ''array''\<rparr>)
                                  (Some items) [] AddlNil [] [] None,
                                definitions')))
            | InterfaceT i \<Rightarrow>
                (case getDiscriminator r t of
                   Some d \<Rightarrow>
                     (case ancestorsLoop n r defs (DiscriminatorField d) (Ancestors d) [] of
                        None \<Rightarrow> None
                      | Some (Inl err) \<Rightarrow> Some (Inl err)
                      | Some (Inr (ancestorTypes, definitions')) \<Rightarrow>
                          (let schema = Node kw0 None [] (AddlBool False) []
                                          (sort_key (\<lambda>a. Ref (kw a)) ancestorTypes) None
                           in if Name_of t \<noteq> []
                              then Some (Inr (addToDefinitions definitions' (Name_of t) schema))
                              else Some (Inr (schema, definitions'))))
                 | None \<Rightarrow>
                     (let schema = Node (kw0\<lparr>Type := ''object''\<rparr>) None [] (AddlBool True) [] [] None
                      in if Name_of t \<noteq> []
                         then Some (Inr (addToDefinitions defs (Name_of t) schema))
                         else Some (Inr (schema, defs))))
            | BasicT i b \<Rightarrow>
                if basic_kind b \<in> set integerKinds
                then Some (Inr (Type0 (kw0\<lparr>Type := ''integer''\<rparr>), defs))
                else if basic_kind b \<in> set [KFloat32, KFloat64]
                then Some (Inr (Type0 (kw0\<lparr>Type := ''number''\<rparr>), defs))
                else if basic_kind b = KBool
                then Some (Inr (Type0 (kw0\<lparr>Type := ''boolean''\<rparr>), defs))
                else if basic_kind b = KString
                then Some (Inr (Type0 (kw0\<lparr>Type := ''string''\<rparr>), defs))
                else Some (Inl (UnsupportedType t))
            | PtrT ms e \<Rightarrow> reflectTypeToSchema n r defs e
            | ChanT i e \<Rightarrow> Some (Inl (UnsupportedType t))
            | FuncT i \<Rightarrow> Some (Inl (UnsupportedType t)))"
    using c by (simp split del: if_split cong: if_weak_cong)
  show ?thesis
    unfolding head
    by (cases t)
       (simp_all add: byteSliceType_def registerNamed_def unionNode_def openObject_def Let_def
          split: option.splits sum.splits)
qed

declare reflectTypeToSchema.simps(2) [simp del]

subsection \<open>Tags\<close>

lemma Split_not_Nil [simp]: "Split s c \<noteq> []"
  by (induction s) (auto split: list.splits)

lemma stringsSliceContains_set [simp]: "stringsSliceContains xs x \<longleftrightarrow> x \<in> set xs"
  by (induction xs) auto

subsection \<open>Case analysis of a returning call\<close>

lemma fieldsLoop_Cons_returns:
  assumes "fieldsLoop n r st defs (f # fs) = Some (Inr (st', defs'))"
  obtains
    (inline) a ex ty d1 where "reflectFieldName r f = (a, ex)" "Inline a"
      "reflectTypeToSchema n r defs (FType f) = Some (Inr (ty, d1))"
      "fieldsLoop n r (set_AllOf (AllOf st @ [ty]) st) d1 fs = Some (Inr (st', defs'))"
  | (flatten) a st1 d1 where "reflectFieldName r f = (a, False)" "\<not> Inline a" "Name a = []"
      "FAnonymous f" "reflectStructFields n r st defs (FType f) = Some (Inr (st1, d1))"
      "fieldsLoop n r st1 d1 fs = Some (Inr (st', defs'))"
  | (skip) a ex where "reflectFieldName r f = (a, ex)" "\<not> Inline a" "Name a = []"
      "\<not> (FAnonymous f \<and> \<not> ex)" "fieldsLoop n r st defs fs = Some (Inr (st', defs'))"
  | (property) a ex p d1 where "reflectFieldName r f = (a, ex)" "\<not> Inline a" "Name a \<noteq> []"
      "reflectTypeToSchema n r defs (FType f) = Some (Inr (p, d1))"
      "fieldsLoop n r (addProperty a (structKeywordsFromTags p f) st) d1 fs = Some (Inr (st', defs'))"
proof (cases "reflectFieldName r f")
  case (Pair a ex)
  show ?thesis
  proof (cases "Inline a")
    case True
    with assms Pair inline show ?thesis
      by (auto split: option.splits sum.splits)
  next
    case ni: False
    show ?thesis
    proof (cases "Name a = []")
      case True
      with assms Pair ni flatten skip show ?thesis
        by (auto split: option.splits sum.splits if_splits)
    next
      case False
      with assms Pair ni property show ?thesis
        by (auto simp: addProperty_def Let_def split: option.splits sum.splits)
    qed
  qed
qed

lemma reflectStructFields_Suc_returns:
  assumes "reflectStructFields (Suc n) r st defs t = Some (Inr (st', defs'))"
  obtains
    (fields) i fs acc where "(case t of PtrT ms e \<Rightarrow> e | _ \<Rightarrow> t) = StructT i fs"
      "fieldsLoop n r st defs fs = Some (Inr (acc, defs'))" "st' = collapseAllOf acc"
  | (other) "st' = st" "defs' = defs"
  using assms
  by (cases "(case t of PtrT ms e \<Rightarrow> e | _ \<Rightarrow> t)")
     (auto simp: Let_def split: option.splits sum.splits)

lemma reflectStruct_Suc_returns:
  assumes "reflectStruct (Suc n) r defs t = Some (Inr (node, defs'))"
  obtains
    (ignored) "isIgnored r t" "node = getTypeRef (Name_of t)"
      "defs' = AList.update (Name_of t) (emptyObjectSchema True) defs"
  | (fields) st1 d1 where "\<not> isIgnored r t"
      "reflectStructFields n r (emptyObjectSchema (AllowAdditionalProperties r)) defs t
         = Some (Inr (st1, d1))"
      "node = getTypeRef (Name_of t)" "defs' = AList.update (Name_of t) st1 d1"
  using assms
  by (cases "isIgnored r t")
     (auto simp: Let_def addToDefinitions_def split: option.splits sum.splits)

lemma variantShell_eq:
  "upd_kw (\<lambda>k. k\<lparr>Required := Required k @ [dField]\<rparr>)
     (set_Properties (AList.update dField (getConstStringType dKey) (Properties (emptyObjectSchema b)))
        (emptyObjectSchema b)) = variantShell b dField dKey"
  by (simp add: emptyObjectSchema_def variantShell_def kw0_def)

lemma reflectDiscriminatedStruct_Suc_returns:
  assumes "reflectDiscriminatedStruct (Suc n) r defs t dField dKey = Some (Inr (node, defs'))"
  obtains
    (ignored) "isIgnored r t" "node = getTypeRef (defName_of t dField dKey)"
      "defs' = AList.update (defName_of t dField dKey) (variantShell True dField dKey) defs"
  | (fields) st1 d1 where "\<not> isIgnored r t"
      "reflectStructFields n r (variantShell (AllowAdditionalProperties r) dField dKey) defs t
         = Some (Inr (st1, d1))"
      "node = getTypeRef (defName_of t dField dKey)"
      "defs' = AList.update (defName_of t dField dKey) st1 d1"
  using assms
  by (cases "isIgnored r t")
     (auto simp: Let_def addToDefinitions_def variantShell_eq split: option.splits sum.splits)

lemma ancestorsLoop_Cons_returns:
  assumes "ancestorsLoop n r defs dField (da # rest) acc = Some (Inr (ats, defs'))"
  obtains ref d1 where
    "reflectDiscriminatedStruct n r defs (snd da) dField (fst da) = Some (Inr (ref, d1))"
    "ancestorsLoop n r d1 dField rest (acc @ [upd_kw (\<lambda>k. k\<lparr>Title := fst da\<rparr>) ref])
       = Some (Inr (ats, defs'))"
  using assms by (auto split: option.splits sum.splits)

lemma reflectTypeToSchema_Suc_returns:
  assumes "reflectTypeToSchema (Suc n) r defs t = Some (Inr (node, defs'))"
  obtains
    (short) "shortCircuit r defs t = Some node" "defs' = defs"
  | (leaf) k m where "shortCircuit r defs t = None" "node = Node k None [] AddlNil [] [] m"
      "Ref k = []" "m = None \<or> m = Some (Type0 (kw0\<lparr>BinaryEncoding := ''base64''\<rparr>))"
      "defs' = defs"
  | (struct) i fs where "shortCircuit r defs t = None" "t = StructT i fs"
      "reflectStruct n r defs t = Some (Inr (node, defs'))"
  | (map) i k v valueSchema where "shortCircuit r defs t = None" "t = MapT i k v"
      "reflectTypeToSchema n r defs v = Some (Inr (valueSchema, defs'))"
      "node = Node (kw0\<lparr>Type := ''object''\<rparr>) None [] (AddlType valueSchema) [] [] None"
  | (slice) i e items k where "shortCircuit r defs t = None"
      "t = SliceT i e \<or> (\<exists>len. t = ArrayT i len e)"
      "reflectTypeToSchema n r defs e = Some (Inr (items, defs'))"
      "node = Node k (Some items) [] AddlNil [] [] None" "Ref k = []"
  | (union) i d ancestorTypes defs1 where "shortCircuit r defs t = None" "t = InterfaceT i"
      "getDiscriminator r t = Some d"
      "ancestorsLoop n r defs (DiscriminatorField d) (Ancestors d) [] =
         Some (Inr (ancestorTypes, defs1))"
      "(node, defs') = registerNamed t (unionNode ancestorTypes) defs1"
  | (iface) i where "shortCircuit r defs t = None" "t = InterfaceT i"
      "getDiscriminator r t = None" "(node, defs') = registerNamed t openObject defs"
  | (ptr) ms e where "shortCircuit r defs t = None" "t = PtrT ms e"
      "reflectTypeToSchema n r defs e = Some (Inr (node, defs'))"
proof (cases "shortCircuit r defs t")
  case (Some s)
  with assms have "s = node" "defs' = defs" by (simp_all add: rtts_short[OF Some])
  with Some short show ?thesis by blast
next
  case None
  note eq = rtts_kind[OF None, of n]
  show ?thesis
  proof (cases t)
    case (BasicT i b)
    from assms[unfolded eq] BasicT
    have "\<exists>ty. node = Node (kw0\<lparr>Type := ty\<rparr>) None [] AddlNil [] [] None" and d: "defs' = defs"
      by (auto simp: Type0_def split: if_splits)
    then obtain ty where n: "node = Node (kw0\<lparr>Type := ty\<rparr>) None [] AddlNil [] [] None" by blast
    have "Ref (kw0\<lparr>Type := ty\<rparr>) = []" by (simp add: kw0_def)
    with n d None leaf show ?thesis by blast
  next
    case (StructT i fs)
    show ?thesis
    proof (cases "t = timeType \<or> t = uriType")
      case True
      with assms[unfolded eq] StructT
      have "\<exists>fmt. node = Node (kw0\<lparr>Type := ''string'', Format := fmt\<rparr>) None [] AddlNil [] [] None"
        and d: "defs' = defs"
        by (auto simp: Type0_def split: if_splits)
      then obtain fmt where
        n: "node = Node (kw0\<lparr>Type := ''string'', Format := fmt\<rparr>) None [] AddlNil [] [] None"
        by blast
      have "Ref (kw0\<lparr>Type := ''string'', Format := fmt\<rparr>) = []" by (simp add: kw0_def)
      with n d None leaf show ?thesis by blast
    next
      case False
      with assms[unfolded eq] StructT
      have "reflectStruct n r defs t = Some (Inr (node, defs'))" by simp
      with None StructT struct show ?thesis by blast
    qed
  next
    case (MapT i k v)
    with assms[unfolded eq]
    have "\<exists>valueSchema.
      reflectTypeToSchema n r defs v = Some (Inr (valueSchema, defs')) \<and>
      node = Node (kw0\<lparr>Type := ''object''\<rparr>) None [] (AddlType valueSchema) [] [] None"
      by (auto split: option.splits sum.splits)
    with None MapT map show ?thesis by blast
  next
    case (SliceT i e)
    show ?thesis
    proof (cases "t = byteSliceType")
      case True
      with assms[unfolded eq] SliceT
      have n: "node = Node (kw0\<lparr>Type := ''string''\<rparr>) None [] AddlNil [] []
                     (Some (Type0 (kw0\<lparr>BinaryEncoding := ''base64''\<rparr>)))" and d: "defs' = defs"
        by auto
      have "Ref (kw0\<lparr>Type := ''string''\<rparr>) = []" by (simp add: kw0_def)
      with n d None leaf show ?thesis by blast
    next
      case False
      with assms[unfolded eq] SliceT
      have "\<exists>items.
        reflectTypeToSchema n r defs e = Some (Inr (items, defs')) \<and>
        node = Node (kw0\<lparr>Type := ''array''\<rparr>) (Some items) [] AddlNil [] [] None"
        by (auto split: option.splits sum.splits)
      moreover have "Ref (kw0\<lparr>Type := ''array''\<rparr>) = []" by (simp add: kw0_def)
      ultimately show ?thesis using None SliceT slice by blast
    qed
  next
    case (ArrayT i len e)
    with assms[unfolded eq]
    have "\<exists>items.
      reflectTypeToSchema n r defs e = Some (Inr (items, defs')) \<and>
      node = Node (kw0\<lparr>MinItems := int len, MaxItems := int len, Type := ''array''\<rparr>)
                (Some items) [] AddlNil [] [] None"
      by (auto split: option.splits sum.splits)
    moreover have "Ref (kw0\<lparr>MinItems := int len, MaxItems := int len, Type := ''array''\<rparr>) = []"
      by (simp add: kw0_def)
    ultimately show ?thesis using None ArrayT slice by blast
  next
    case (PtrT ms e)
    with assms[unfolded eq]
    have "reflectTypeToSchema n r defs e = Some (Inr (node, defs'))" by simp
    with None PtrT ptr show ?thesis by blast
  next
    case (InterfaceT i)
    show ?thesis
    proof (cases "getDiscriminator r t")
      case d: None
      with assms[unfolded eq] InterfaceT
      have "(node, defs') = registerNamed t openObject defs" by simp
      with None InterfaceT d iface show ?thesis by blast
    next
      case (Some d)
      with assms[unfolded eq] InterfaceT
      have "\<exists>ancestorTypes defs1.
        ancestorsLoop n r defs (DiscriminatorField d) (Ancestors d) [] =
           Some (Inr (ancestorTypes, defs1)) \<and>
        (node, defs') = registerNamed t (unionNode ancestorTypes) defs1"
        by (auto split: option.splits sum.splits)
      with None InterfaceT Some union show ?thesis by blast
    qed
  next
    case (ChanT i e)
    with assms[unfolded eq] show ?thesis by simp
  next
    case (FuncT i)
    with assms[unfolded eq] show ?thesis by simp
  qed
qed

subsection \<open>References resolve: the invariant of the traversal\<close>

lemma resolves_mono: "K \<subseteq> K' \<Longrightarrow> resolves K t \<Longrightarrow> resolves K' t"
  unfolding resolves_def by blast

lemma defs_resolve_mono: "K \<subseteq> K' \<Longrightarrow> defs_resolve K d \<Longrightarrow> defs_resolve K' d"
  unfolding defs_resolve_def using resolves_mono by blast

lemma resolves_Node:
  "resolves K (Node k i p a al oo m) \<longleftrightarrow>
     (Ref k = [] \<or> (\<exists>name \<in> K. Ref k = ''#/definitions/'' @ name)) \<and>
     (\<forall>x \<in> set_option i. resolves K x) \<and> (\<forall>x \<in> snd ` set p. resolves K x) \<and>
     (\<forall>x \<in> set_additional a. resolves K x) \<and> (\<forall>x \<in> set al. resolves K x) \<and>
     (\<forall>x \<in> set oo. resolves K x) \<and> (\<forall>x \<in> set_option m. resolves K x)"
  by (cases a; cases i; cases m) (auto simp: resolves_def)

lemma resolves_Type0: "resolves K (Type0 k) \<longleftrightarrow> (Ref k = [] \<or> (\<exists>name \<in> K. Ref k = ''#/definitions/'' @ name))"
  by (simp add: Type0_def resolves_Node)

lemma keys_update [simp]: "keys (AList.update k v al) = insert k (keys al)"
  by (induction al) (auto simp: keys_def)

lemma values_update: "snd ` set (AList.update k v al) \<subseteq> insert v (snd ` set al)"
  by (induction al) auto

lemma map_of_keys: "map_of defs k \<noteq> None \<longleftrightarrow> k \<in> keys defs"
  by (simp add: keys_def map_of_eq_None_iff)

lemma defs_resolve_update:
  "defs_resolve K defs \<Longrightarrow> resolves K v \<Longrightarrow> defs_resolve K (AList.update k v defs)"
  unfolding defs_resolve_def using values_update[of k v defs] by blast

lemma resolves_getTypeRef: "name \<in> K \<Longrightarrow> resolves K (getTypeRef name)"
  by (simp add: getTypeRef_def resolves_Type0)

lemma refs_upd_kw: "Ref (f (kw t)) = Ref (kw t) \<Longrightarrow> refs (upd_kw f t) = refs t"
  by (cases t) simp

lemma resolves_upd_kw:
  "Ref (f (kw t)) = Ref (kw t) \<Longrightarrow> resolves K (upd_kw f t) = resolves K t"
  by (simp add: resolves_def refs_upd_kw)

lemma kw_upd_kw [simp]: "kw (upd_kw f t) = f (kw t)"
  by (cases t) simp

lemma refs_genericKeyword [simp]: "refs (genericKeyword t tag) = refs t"
  by (auto simp: genericKeyword_def refs_upd_kw split: list.splits)

lemma refs_stringKeyword [simp]: "refs (stringKeyword t tag) = refs t"
  by (auto simp: stringKeyword_def refs_upd_kw split: list.splits)

lemma refs_numbericKeyword [simp]: "refs (numbericKeyword t tag) = refs t"
  by (auto simp: numbericKeyword_def refs_upd_kw split: list.splits)

lemma refs_arrayKeyword [simp]: "refs (fst (arrayKeyword acc tag)) = refs (fst acc)"
  by (cases acc) (auto simp: arrayKeyword_def refs_upd_kw split: list.splits)

lemma refs_foldl:
  assumes "\<And>t tag. refs (f t tag) = refs t"
  shows "refs (foldl f t tags) = refs t"
  by (induction tags arbitrary: t) (simp_all add: assms)

lemma refs_foldl_array: "refs (fst (foldl arrayKeyword acc tags)) = refs (fst acc)"
  by (induction tags arbitrary: acc) simp_all

lemma refs_structKeywordsFromTags [simp]: "refs (structKeywordsFromTags t f) = refs t"
proof -
  have a: "refs (arrayKeywords t tags) = refs t" for t tags
    using refs_foldl_array[of "(t, [])" tags]
    by (auto simp: arrayKeywords_def refs_upd_kw split: prod.splits)
  show ?thesis
    by (simp add: structKeywordsFromTags_def Let_def genericKeywords_def stringKeywords_def
          numbericKeywords_def a refs_foldl refs_upd_kw)
qed

lemma shortCircuit_resolves:
  assumes "mapper_refless r" and "shortCircuit r defs t = Some node"
  shows "resolves (keys defs) node"
proof (cases "map_of defs (Name_of t) \<noteq> None")
  case True
  then have "Name_of t \<in> keys defs" using map_of_keys[of defs "Name_of t"] by blast
  moreover from True assms(2) have "node = Type0 (kw0\<lparr>Ref := ''#/definitions/'' @ Name_of t\<rparr>)"
    by (simp add: shortCircuit_def)
  ultimately show ?thesis by (simp add: resolves_Type0)
next
  case False
  with assms show ?thesis
    by (auto simp: shortCircuit_def resolves_Type0 resolves_Node Type0_def kw0_def
          mapper_refless_def resolves_def
        split: if_splits option.splits)
qed

lemma resolves_set_AllOf:
  "resolves K (set_AllOf (AllOf st @ [x]) st) \<longleftrightarrow> resolves K st \<and> resolves K x"
  by (cases st) (auto simp: resolves_Node)

lemma resolves_collapseAllOf: "resolves K (collapseAllOf st) \<longleftrightarrow> resolves K st"
  by (cases st) (auto simp: resolves_Node collapseAllOf_def)

lemma resolves_addProperty:
  assumes "resolves K st" and "resolves K p"
  shows "resolves K (addProperty a p st)"
proof (cases st)
  case (Node k i ps ad al oo m)
  from assms(1) Node have "\<forall>x \<in> snd ` set ps. resolves K x"
    by (simp add: resolves_Node)
  with assms(2) have "\<forall>x \<in> snd ` set (AList.update (Name a) p ps). resolves K x"
    using values_update[of "Name a" p ps] by blast
  with assms Node show ?thesis
    by (simp add: addProperty_def Let_def resolves_Node)
qed

lemma resolves_shells:
  "resolves K (emptyObjectSchema b)" "resolves K (variantShell b f k)" "resolves K openObject"
  by (simp_all add: emptyObjectSchema_def variantShell_def openObject_def resolves_Node
        kw0_def getConstStringType_def Type0_def)

lemma resolves_unionNode: "resolves K (unionNode xs) \<longleftrightarrow> (\<forall>x \<in> set xs. resolves K x)"
  by (simp add: unionNode_def resolves_Node kw0_def)

lemma refs_post_register:
  assumes "keys defs \<subseteq> keys d1" "defs_resolve (keys d1) d1" "resolves (keys d1) st"
  shows "refs_post defs (AList.update name st d1) [getTypeRef name]"
proof -
  have "keys d1 \<subseteq> keys (AList.update name st d1)" by auto
  with assms show ?thesis
    unfolding refs_post_def
    by (auto intro!: defs_resolve_update resolves_getTypeRef
             intro: defs_resolve_mono resolves_mono)
qed

lemma refs_post_registerNamed:
  assumes "keys defs \<subseteq> keys d1" "defs_resolve (keys d1) d1" "resolves (keys d1) st"
    and "(node, defs') = registerNamed t st d1"
  shows "refs_post defs defs' [node]"
proof (cases "Name_of t = []")
  case True
  with assms show ?thesis by (simp add: registerNamed_def refs_post_def)
next
  case False
  with assms(4) have "node = getTypeRef (Name_of t)" "defs' = AList.update (Name_of t) st d1"
    by (simp_all add: registerNamed_def addToDefinitions_def)
  with refs_post_register[OF assms(1-3)] show ?thesis by simp
qed

lemma fieldsLoop_resolves:
  assumes T0: "\<forall>defs t node defs'. defs_resolve (keys defs) defs \<longrightarrow>
                reflectTypeToSchema n r defs t = Some (Inr (node, defs')) \<longrightarrow>
                refs_post defs defs' [node]"
      and F0: "\<forall>st defs t st' defs'. defs_resolve (keys defs) defs \<longrightarrow> resolves (keys defs) st \<longrightarrow>
                reflectStructFields n r st defs t = Some (Inr (st', defs')) \<longrightarrow>
                refs_post defs defs' [st']"
  shows "defs_resolve (keys defs) defs \<Longrightarrow> resolves (keys defs) st \<Longrightarrow>
         fieldsLoop n r st defs fs = Some (Inr (st', defs')) \<Longrightarrow> refs_post defs defs' [st']"
proof (induction fs arbitrary: st defs)
  case Nil
  then show ?case by (simp add: refs_post_def)
next
  case (Cons f fs)
  from Cons.prems(3) show ?case
  proof (cases rule: fieldsLoop_Cons_returns)
    case (inline a ex ty d1)
    from T0[rule_format, OF Cons.prems(1) inline(3)]
    have p: "keys defs \<subseteq> keys d1" "defs_resolve (keys d1) d1" "resolves (keys d1) ty"
      by (simp_all add: refs_post_def)
    with Cons.prems(2) have "resolves (keys d1) (set_AllOf (AllOf st @ [ty]) st)"
      by (auto simp: resolves_set_AllOf intro: resolves_mono)
    from Cons.IH[OF p(2) this inline(4)] p(1) show ?thesis
      by (auto simp: refs_post_def)
  next
    case (flatten a st1 d1)
    from F0[rule_format, OF Cons.prems(1,2) flatten(5)]
    have p: "keys defs \<subseteq> keys d1" "defs_resolve (keys d1) d1" "resolves (keys d1) st1"
      by (simp_all add: refs_post_def)
    from Cons.IH[OF p(2,3) flatten(6)] p(1) show ?thesis
      by (auto simp: refs_post_def)
  next
    case (skip a ex)
    from Cons.IH[OF Cons.prems(1,2) skip(5)] show ?thesis .
  next
    case (property a ex p d1)
    from T0[rule_format, OF Cons.prems(1) property(4)]
    have q: "keys defs \<subseteq> keys d1" "defs_resolve (keys d1) d1" "resolves (keys d1) p"
      by (simp_all add: refs_post_def)
    have "resolves (keys d1) (structKeywordsFromTags p f)"
      using q(3) by (simp add: resolves_def)
    with Cons.prems(2) q(1)
    have "resolves (keys d1) (addProperty a (structKeywordsFromTags p f) st)"
      by (intro resolves_addProperty) (auto intro: resolves_mono)
    from Cons.IH[OF q(2) this property(5)] q(1) show ?thesis
      by (auto simp: refs_post_def)
  qed
qed

lemma ancestorsLoop_resolves:
  assumes D0: "\<forall>defs t dField dKey node defs'. defs_resolve (keys defs) defs \<longrightarrow>
                reflectDiscriminatedStruct n r defs t dField dKey = Some (Inr (node, defs')) \<longrightarrow>
                refs_post defs defs' [node]"
  shows "defs_resolve (keys defs) defs \<Longrightarrow> \<forall>x \<in> set acc. resolves (keys defs) x \<Longrightarrow>
         ancestorsLoop n r defs dField xs acc = Some (Inr (ats, defs')) \<Longrightarrow>
         refs_post defs defs' ats"
proof (induction xs arbitrary: acc defs)
  case Nil
  then show ?case by (simp add: refs_post_def)
next
  case (Cons da rest)
  from Cons.prems(3) obtain ref d1 where
    a: "reflectDiscriminatedStruct n r defs (snd da) dField (fst da) = Some (Inr (ref, d1))"
    and b: "ancestorsLoop n r d1 dField rest (acc @ [upd_kw (\<lambda>k. k\<lparr>Title := fst da\<rparr>) ref])
              = Some (Inr (ats, defs'))"
    by (rule ancestorsLoop_Cons_returns)
  from D0[rule_format, OF Cons.prems(1) a]
  have p: "keys defs \<subseteq> keys d1" "defs_resolve (keys d1) d1" "resolves (keys d1) ref"
    by (simp_all add: refs_post_def)
  have "resolves (keys d1) (upd_kw (\<lambda>k. k\<lparr>Title := fst da\<rparr>) ref)"
    using p(3) by (simp add: resolves_upd_kw)
  with Cons.prems(2) p(1)
  have "\<forall>x \<in> set (acc @ [upd_kw (\<lambda>k. k\<lparr>Title := fst da\<rparr>) ref]). resolves (keys d1) x"
    by (auto intro: resolves_mono)
  from Cons.IH[OF p(2) this b] p(1) show ?case
    by (auto simp: refs_post_def)
qed

lemma refs_invariant:
  assumes m: "mapper_refless r"
  shows "(\<forall>defs t node defs'. defs_resolve (keys defs) defs \<longrightarrow>
            reflectTypeToSchema n r defs t = Some (Inr (node, defs')) \<longrightarrow>
            refs_post defs defs' [node]) \<and>
         (\<forall>defs t node defs'. defs_resolve (keys defs) defs \<longrightarrow>
            reflectStruct n r defs t = Some (Inr (node, defs')) \<longrightarrow>
            refs_post defs defs' [node]) \<and>
         (\<forall>defs t dField dKey node defs'. defs_resolve (keys defs) defs \<longrightarrow>
            reflectDiscriminatedStruct n r defs t dField dKey = Some (Inr (node, defs')) \<longrightarrow>
            refs_post defs defs' [node]) \<and>
         (\<forall>st defs t st' defs'. defs_resolve (keys defs) defs \<longrightarrow> resolves (keys defs) st \<longrightarrow>
            reflectStructFields n r st defs t = Some (Inr (st', defs')) \<longrightarrow>
            refs_post defs defs' [st'])"
proof (induction n)
  case 0
  show ?case by simp
next
  case (Suc n)
  note T0 = Suc.IH[THEN conjunct1]
   and S0 = Suc.IH[THEN conjunct2, THEN conjunct1]
   and D0 = Suc.IH[THEN conjunct2, THEN conjunct2, THEN conjunct1]
   and F0 = Suc.IH[THEN conjunct2, THEN conjunct2, THEN conjunct2]
  note T = T0[rule_format] and S = S0[rule_format] and D = D0[rule_format]
   and F = F0[rule_format]
  note L = fieldsLoop_resolves[OF T0 F0]
  note A = ancestorsLoop_resolves[OF D0]
  have F': "refs_post defs defs' [st']"
    if "defs_resolve (keys defs) defs" "resolves (keys defs) st"
       "reflectStructFields (Suc n) r st defs t = Some (Inr (st', defs'))"
    for st defs t st' defs'
    using that(3)
  proof (cases rule: reflectStructFields_Suc_returns)
    case (fields i fs acc)
    from L[OF that(1,2) fields(2)] fields(3) show ?thesis
      by (simp add: refs_post_def resolves_collapseAllOf)
  next
    case other
    with that show ?thesis by (simp add: refs_post_def)
  qed
  have S': "refs_post defs defs' [node]"
    if "defs_resolve (keys defs) defs" "reflectStruct (Suc n) r defs t = Some (Inr (node, defs'))"
    for defs t node defs'
    using that(2)
  proof (cases rule: reflectStruct_Suc_returns)
    case ignored
    with refs_post_register[of defs defs "emptyObjectSchema True" "Name_of t"] that(1)
    show ?thesis by (simp add: resolves_shells)
  next
    case (fields st1 d1)
    from F[OF that(1) _ fields(2)]
    have "refs_post defs d1 [st1]" by (simp add: resolves_shells)
    with refs_post_register[of defs d1 st1 "Name_of t"] fields(3,4)
    show ?thesis by (simp add: refs_post_def)
  qed
  have D': "refs_post defs defs' [node]"
    if "defs_resolve (keys defs) defs"
       "reflectDiscriminatedStruct (Suc n) r defs t dField dKey = Some (Inr (node, defs'))"
    for defs t dField dKey node defs'
    using that(2)
  proof (cases rule: reflectDiscriminatedStruct_Suc_returns)
    case ignored
    with refs_post_register[of defs defs "variantShell True dField dKey" "defName_of t dField dKey"]
      that(1)
    show ?thesis by (simp add: resolves_shells)
  next
    case (fields st1 d1)
    from F[OF that(1) _ fields(2)]
    have "refs_post defs d1 [st1]" by (simp add: resolves_shells)
    with refs_post_register[of defs d1 st1 "defName_of t dField dKey"] fields(3,4)
    show ?thesis by (simp add: refs_post_def)
  qed
  have T': "refs_post defs defs' [node]"
    if "defs_resolve (keys defs) defs"
       "reflectTypeToSchema (Suc n) r defs t = Some (Inr (node, defs'))"
    for defs t node defs'
    using that(2)
  proof (cases rule: reflectTypeToSchema_Suc_returns)
    case short
    with shortCircuit_resolves[OF m short(1)] that(1) show ?thesis
      by (simp add: refs_post_def)
  next
    case (leaf k mm)
    with that(1) show ?thesis
      by (auto simp: refs_post_def resolves_Node resolves_Type0 kw0_def)
  next
    case (struct i fs)
    from S[OF that(1) struct(3)] show ?thesis .
  next
    case (map i k v valueSchema)
    from T[OF that(1) map(3)] map(4) show ?thesis
      by (simp add: refs_post_def resolves_Node kw0_def)
  next
    case (slice i e items k)
    from T[OF that(1) slice(3)] slice(4,5) show ?thesis
      by (simp add: refs_post_def resolves_Node)
  next
    case (union i d ancestorTypes defs1)
    from A[OF that(1) _ union(4)]
    have "refs_post defs defs1 ancestorTypes" by simp
    then have "keys defs \<subseteq> keys defs1" "defs_resolve (keys defs1) defs1"
      "resolves (keys defs1) (unionNode ancestorTypes)"
      by (simp_all add: refs_post_def resolves_unionNode)
    from refs_post_registerNamed[OF this union(5)] show ?thesis .
  next
    case (iface i)
    from refs_post_registerNamed[OF _ that(1) _ iface(4)] show ?thesis
      by (simp add: resolves_shells)
  next
    case (ptr ms e)
    from T[OF that(1) ptr(3)] show ?thesis .
  qed
  from T' S' D' F' show ?case by blast
qed

lemma keys_delete: "keys (AList.delete k al) = keys al - {k}"
  by (induction al) (auto simp: keys_def)

lemma values_delete: "snd ` set (AList.delete k al) \<subseteq> snd ` set al"
  by (induction al) auto

lemmas rtts_refs = refs_invariant[THEN conjunct1, rule_format]

lemmas rstruct_refs = refs_invariant[THEN conjunct2, THEN conjunct1, rule_format]

lemmas rfields_refs = refs_invariant[THEN conjunct2, THEN conjunct2, THEN conjunct2, rule_format]

lemma defs_resolve_Nil: "defs_resolve K []"
  by (simp add: defs_resolve_def)

lemma ReflectFromType_standard:
  assumes "\<not> ExpandedStruct r" and "ReflectFromType n r t = Some (Inr s)"
  shows "reflectTypeToSchema n r [] t = Some (Inr (Root s, Definitions s))"
proof (cases "reflectTypeToSchema n r [] t")
  case None
  with assms show ?thesis by (simp add: ReflectFromType_def)
next
  case (Some x)
  show ?thesis
  proof (cases x)
    case (Inl e)
    with Some assms show ?thesis by (simp add: ReflectFromType_def)
  next
    case (Inr p)
    with Some assms show ?thesis by (cases p) (auto simp: ReflectFromType_def)
  qed
qed

lemma ReflectFromType_expanded:
  assumes "ExpandedStruct r" and "ReflectFromType n r t = Some (Inr s)"
  obtains d1 ref d2 where
    "reflectStructFields n r (expandedRoot r) [] t = Some (Inr (Root s, d1))"
    "reflectStruct n r d1 t = Some (Inr (ref, d2))"
    "Definitions s = AList.delete (Name_of t) d2"
proof (cases "reflectStructFields n r (expandedRoot r) [] t")
  case None
  with assms show ?thesis by (simp add: ReflectFromType_def expandedRoot_def)
next
  case (Some x)
  show ?thesis
  proof (cases x)
    case (Inl e)
    with Some assms show ?thesis by (simp add: ReflectFromType_def expandedRoot_def)
  next
    case (Inr p)
    obtain st' d1 where p: "p = (st', d1)" by (cases p)
    show ?thesis
    proof (cases "reflectStruct n r d1 t")
      case None
      with Some Inr p assms show ?thesis by (simp add: ReflectFromType_def expandedRoot_def)
    next
      case s2: (Some y)
      show ?thesis
      proof (cases y)
        case (Inl e)
        with s2 Some Inr p assms show ?thesis by (simp add: ReflectFromType_def expandedRoot_def)
      next
        case i2: (Inr q)
        obtain ref d2 where q: "q = (ref, d2)" by (cases q)
        from assms Some Inr p s2 i2 q
        have "s = \<lparr>Root = st', Definitions = AList.delete (Name_of t) d2\<rparr>"
          by (simp add: ReflectFromType_def expandedRoot_def)
        with Some Inr p s2 i2 q that show ?thesis by simp
      qed
    qed
  qed
qed

lemma resolves_expandedRoot: "resolves K (expandedRoot r)"
  by (simp add: expandedRoot_def resolves_Node kw0_def)

subsection \<open>The test hierarchy of reflect\_test.go, evaluated\<close>

lemma caseX_reflect:
  "ReflectFromType 8 rCaseX (PtrT [] CaseX_WithInlinedDiscriminatedType) = Some (Inr caseXSchema)"
  by code_simp

lemma isIgnored_rIgnoreA: "isIgnored rIgnoreA CaseX_StructA"
  by code_simp

lemma caseX_fields:
  "reflectStructFields (Suc 5) rCaseX (emptyObjectSchema False) [] CaseX_WithInlinedDiscriminatedType =
     Some (Inr (snd (last (Definitions caseXSchema)), butlast (Definitions caseXSchema)))"
  by code_simp

lemma caseX_loop:
  "fieldsLoop 5 rCaseX (emptyObjectSchema False) []
     [StructField ''CaseX_Interface'' [] CaseX_Interface [(''json'', '',inline'')] True] =
     Some (Inr (Node (kw0\<lparr>Type := ''object''\<rparr>) None [] (AddlBool False)
                  [getTypeRef ''CaseX_Interface''] [] None,
                butlast (Definitions caseXSchema)))"
  by code_simp

lemma twoFields_returns:
  "reflectStructFields 3 Reflector0 (emptyObjectSchema False) [] TwoFields =
     Some (Inr (twoFieldsNode, []))"
  by code_simp

lemma twoFields_friends:
  "reflectFieldName Reflector0
     (StructField ''Friends'' [] (SliceT unnamed intT) [(''json'', ''friends,omitempty'')] False) =
   (\<lparr>Name = ''friends'', IsRequired = False, Inline = False\<rparr>, True)"
  by code_simp

lemma twoFields_contributed:
  "contributed Reflector0 (structFields TwoFields) =
     [\<lparr>Name = ''id'', IsRequired = True, Inline = False\<rparr>,
      \<lparr>Name = ''friends'', IsRequired = False, Inline = False\<rparr>]"
  by code_simp

subsection \<open>Small facts about nodes\<close>

lemma basic_kind_not_Struct: "basic_kind b \<noteq> KStruct"
  by (cases b) simp_all

lemma collapseAllOf_sel:
  "kw (collapseAllOf acc) = kw acc" "Items (collapseAllOf acc) = Items acc"
  "Properties (collapseAllOf acc) = Properties acc"
  "AdditionalProperties (collapseAllOf acc) = AdditionalProperties acc"
  "Media (collapseAllOf acc) = Media acc"
  "OneOf (collapseAllOf acc) = (if length (AllOf acc) = 1 \<and> OneOf acc = [] then AllOf acc else OneOf acc)"
  "AllOf (collapseAllOf acc) = (if length (AllOf acc) = 1 \<and> OneOf acc = [] then [] else AllOf acc)"
  by (cases acc; simp add: collapseAllOf_def)+

subsection \<open>Supported types never reach the panic\<close>

lemma panicked_simps [simp]:
  "panicked None = False" "panicked (Some (Inl e)) = True" "panicked (Some (Inr x)) = False"
  by (simp_all add: panicked_def)







subsection \<open>The required list of a struct node\<close>

lemma requiredNames_simps:
  "requiredNames r [] = []"
  "requiredNames r (f # fs) =
     (case reflectFieldName r f of
        (a, ex) \<Rightarrow>
          if Inline a then []
          else if Name a = []
          then (if FAnonymous f \<and> \<not> ex then requiredNames r (structFields (FType f)) else [])
          else (if IsRequired a then [Name a] else [])) @ requiredNames r fs"
  by (auto simp: requiredNames_def split: prod.splits)

lemma kw_set_AllOf [simp]: "kw (set_AllOf xs st) = kw st"
  by (cases st) simp

lemma kw_collapseAllOf [simp]: "kw (collapseAllOf st) = kw st"
  by (simp add: collapseAllOf_sel)

lemma kw_addProperty:
  "kw (addProperty a p st) =
     (kw st)\<lparr>Required := Required (kw st) @ (if IsRequired a then [Name a] else [])\<rparr>"
  by (cases st) (simp add: addProperty_def Let_def)

lemma fieldsLoop_kw:
  assumes F0: "\<forall>st defs t st' defs'.
                 reflectStructFields n r st defs t = Some (Inr (st', defs')) \<longrightarrow>
                 kw st' = (kw st)\<lparr>Required := Required (kw st) @ requiredNames r (structFields t)\<rparr>"
  shows "fieldsLoop n r st defs fs = Some (Inr (st', defs')) \<Longrightarrow>
         kw st' = (kw st)\<lparr>Required := Required (kw st) @ requiredNames r fs\<rparr>"
proof (induction fs arbitrary: st defs)
  case Nil
  then show ?case by (simp add: requiredNames_simps)
next
  case (Cons f fs)
  from Cons.prems show ?case
  proof (cases rule: fieldsLoop_Cons_returns)
    case (inline a ex ty d1)
    from Cons.IH[OF inline(4)] inline(1,2) show ?thesis
      by (simp add: requiredNames_simps)
  next
    case (flatten a st1 d1)
    from F0[rule_format, OF flatten(5)] Cons.IH[OF flatten(6)] flatten(1-4) show ?thesis
      by (simp add: requiredNames_simps)
  next
    case (skip a ex)
    from Cons.IH[OF skip(5)] skip(1-4) show ?thesis
      by (auto simp: requiredNames_simps)
  next
    case (property a ex p d1)
    from Cons.IH[OF property(5)] property(1-3) show ?thesis
      by (simp add: requiredNames_simps kw_addProperty)
  qed
qed

lemma reflectStructFields_kw:
  "\<forall>st defs t st' defs'.
     reflectStructFields n r st defs t = Some (Inr (st', defs')) \<longrightarrow>
     kw st' = (kw st)\<lparr>Required := Required (kw st) @ requiredNames r (structFields t)\<rparr>"
proof (induction n)
  case 0
  show ?case by simp
next
  case (Suc n)
  note L = fieldsLoop_kw[OF Suc.IH]
  show ?case
  proof (intro allI impI)
    fix st defs t st' defs'
    assume a: "reflectStructFields (Suc n) r st defs t = Some (Inr (st', defs'))"
    show "kw st' = (kw st)\<lparr>Required := Required (kw st) @ requiredNames r (structFields t)\<rparr>"
    proof (cases "(case t of PtrT ms e \<Rightarrow> e | _ \<Rightarrow> t)")
      case (StructT i fs)
      then have sf: "structFields t = fs" by (simp add: structFields_def)
      from a StructT obtain acc where
        "fieldsLoop n r st defs fs = Some (Inr (acc, defs'))" "st' = collapseAllOf acc"
        by (auto simp: Let_def split: option.splits sum.splits)
      with L[of st defs fs acc defs'] sf show ?thesis by simp
    qed (use a in \<open>simp_all add: Let_def structFields_def requiredNames_simps\<close>)
  qed
qed

lemma reflectFieldName_required:
  assumes "reflectFieldName r f = (a, ex)" and "Name a \<noteq> []"
  shows "IsRequired a \<longleftrightarrow>
           (if RequiredFromJSONSchemaTags r
            then ''required'' \<in> set (Split (Get (FTag f) ''jsonschema'') CHR '','')
            else ''omitempty'' \<notin> set (tl (Split (serializationTag f) CHR '','')))"
  using assms
  by (auto simp: reflectFieldName_def serializationTag_def Let_def fieldAnnotation0_def
        requiredFromJSONTags_def requiredFromJSONSchemaTags_def
      split: option.splits if_splits)

lemma contributed_Cons_named:
  assumes "reflectFieldName r f = (a, ex)" and "Name a \<noteq> []" and "\<not> Inline a"
  shows "contributed r (f # fs) = a # contributed r fs"
  using assms by simp

lemma contributed_direct:
  assumes "f \<in> set fs" and "reflectFieldName r f = (a, ex)" and "Name a \<noteq> []" and "\<not> Inline a"
  shows "a \<in> set (contributed r fs)"
  using assms(1)
proof (induction fs)
  case Nil
  then show ?case by simp
next
  case (Cons x xs)
  show ?case
  proof (cases "f = x")
    case True
    with contributed_Cons_named[OF assms(2,3,4), of xs] show ?thesis by simp
  next
    case False
    with Cons have "a \<in> set (contributed r xs)" by simp
    moreover have "set (contributed r xs) \<subseteq> set (contributed r (x # xs))"
      by (cases "reflectFieldName r x") simp
    ultimately show ?thesis by blast
  qed
qed

lemma map_of_update_same: "map_of (AList.update k v al) k = Some v"
  by (simp add: update_conv')

lemma reflectStruct_registered_kw:
  assumes "reflectStruct m r ds t = Some (Inr (node, ds'))" and "\<not> isIgnored r t"
  shows "\<exists>s. map_of ds' (Name_of t) = Some s \<and>
             Required (kw s) = requiredNames r (structFields t)"
proof (cases m)
  case 0
  with assms show ?thesis by simp
next
  case (Suc n)
  from assms(1)[unfolded Suc] show ?thesis
  proof (cases rule: reflectStruct_Suc_returns)
    case ignored
    with assms(2) show ?thesis by simp
  next
    case (fields st1 d1)
    from reflectStructFields_kw[rule_format, OF fields(2)]
    have "Required (kw st1) = requiredNames r (structFields t)"
      by (simp add: emptyObjectSchema_def kw0_def)
    with fields(4) show ?thesis by (simp add: map_of_update_same)
  qed
qed

subsection \<open>A bound on the call depth that suffices\<close>







lemma finished_simps [simp]: "finished None = False" "finished (Some x) = True"
  by (simp_all add: finished_def)















subsection \<open>Panics at the top level\<close>








subsection \<open>References and definitions\<close>

text \<open>
  C1 (amended). When \<open>ReflectFromType\<close> returns, every node of the root and of the
  returned Definitions whose \<open>Ref\<close> is not empty refers to \<open>#/definitions/<name>\<close>
  where \<open>name\<close> is a key of the returned Definitions or, in \<open>ExpandedStruct\<close> mode, the
  name of the root type, whose entry that mode deletes at the end. This holds for every
  configuration whose \<open>TypeMapper\<close>, if any, returns nodes without \<open>$ref\<close>: the nodes of
  a mapper are used as they are.
\<close>

theorem refs_resolve_after_reflect:
  assumes "mapper_refless r" and "ReflectFromType n r t = Some (Inr s)"
  shows "\<forall>node \<in> insert (Root s) (snd ` set (Definitions s)).
           resolves (keys (Definitions s) \<union> (if ExpandedStruct r then {Name_of t} else {})) node"
proof (cases "ExpandedStruct r")
  case False
  from ReflectFromType_standard[OF False assms(2)]
  have "refs_post [] (Definitions s) [Root s]"
    by (rule rtts_refs[OF assms(1) defs_resolve_Nil])
  then have "resolves (keys (Definitions s)) (Root s)"
    and "\<forall>v \<in> snd ` set (Definitions s). resolves (keys (Definitions s)) v"
    by (simp_all add: refs_post_def defs_resolve_def)
  with False show ?thesis by simp
next
  case True
  from True assms(2) obtain d1 ref d2 where
    a: "reflectStructFields n r (expandedRoot r) [] t = Some (Inr (Root s, d1))"
    and b: "reflectStruct n r d1 t = Some (Inr (ref, d2))"
    and d: "Definitions s = AList.delete (Name_of t) d2"
    by (rule ReflectFromType_expanded)
  have p1: "refs_post [] d1 [Root s]"
    by (rule rfields_refs[OF assms(1) defs_resolve_Nil resolves_expandedRoot a])
  then have q1: "defs_resolve (keys d1) d1" "resolves (keys d1) (Root s)"
    by (simp_all add: refs_post_def)
  have p2: "refs_post d1 d2 [ref]"
    by (rule rstruct_refs[OF assms(1) q1(1) b])
  then have q2: "keys d1 \<subseteq> keys d2" "defs_resolve (keys d2) d2"
    by (simp_all add: refs_post_def)
  let ?K = "keys (Definitions s) \<union> {Name_of t}"
  have k: "keys d2 \<subseteq> ?K" unfolding d keys_delete by blast
  have r1: "resolves ?K (Root s)"
    using resolves_mono[OF q2(1) q1(2)] resolves_mono[OF k] by blast
  have "defs_resolve ?K d2" using defs_resolve_mono[OF k q2(2)] .
  then have r2: "\<forall>v \<in> snd ` set (Definitions s). resolves ?K v"
    unfolding d defs_resolve_def using values_delete[of "Name_of t" d2] by blast
  from r1 r2 True show ?thesis by simp
qed

text \<open>
  The claim as stated, for every configuration, fails twice. In \<open>ExpandedStruct\<close> mode a
  root type \<open>Config\<close> with a field of another package's type \<open>Config\<close> gives a root
  whose property refers to \<open>#/definitions/Config\<close>, and the returned Definitions are
  empty. With a \<open>TypeMapper\<close> that answers with a reference, the reference is returned
  as it is and nothing defines \<open>Timestamp\<close>.
\<close>

theorem refs_resolve_counterexample:
  "ReflectFromType 8 rExpanded Config =
     Some (Inr \<lparr>Root = Node (kw0\<lparr>Version := Version_uri, Required := [''inner''], Type := ''object''\<rparr>)
                         None [(''inner'', getTypeRef ''Config'')] (AddlBool False) [] [] None,
                Definitions = []\<rparr>) \<and>
   refs (getTypeRef ''Config'') = [''#/definitions/Config''] \<and>
   ReflectFromType 8 rMapper CustomTypeField =
     Some (Inr \<lparr>Root = getTypeRef ''CustomTypeField'',
                Definitions =
                  [(''CustomTypeField'',
                    Node (kw0\<lparr>Required := [''CreatedAt''], Type := ''object''\<rparr>) None
                      [(''CreatedAt'', Type0 (kw0\<lparr>Ref := ''#/definitions/Timestamp''\<rparr>))]
                      (AddlBool False) [] [] None)]\<rparr>)"
  by code_simp

text \<open>The invariant on the inlined discriminated hierarchy of the test file.\<close>

theorem refs_resolve_witness:
  "mapper_refless rCaseX \<and>
   ReflectFromType 8 rCaseX (PtrT [] CaseX_WithInlinedDiscriminatedType) = Some (Inr caseXSchema) \<and>
   list_all (resolves (keys (Definitions caseXSchema)))
     (Root caseXSchema # map snd (Definitions caseXSchema))"
proof -
  have m: "mapper_refless rCaseX"
    by (simp add: mapper_refless_def rCaseX_def RegisterDiscriminatorType_def Reflector0_def
          CaseX_Interface_def Implements_def named_def)
  have e: "\<not> ExpandedStruct rCaseX"
    by (simp add: rCaseX_def RegisterDiscriminatorType_def Reflector0_def
          CaseX_Interface_def Implements_def named_def)
  have "\<forall>node \<in> insert (Root caseXSchema) (snd ` set (Definitions caseXSchema)).
          resolves (keys (Definitions caseXSchema) \<union>
             (if ExpandedStruct rCaseX then {Name_of (PtrT [] CaseX_WithInlinedDiscriminatedType)}
              else {})) node"
    by (rule refs_resolve_after_reflect[OF m caseX_reflect])
  with e have "\<forall>node \<in> insert (Root caseXSchema) (snd ` set (Definitions caseXSchema)).
                 resolves (keys (Definitions caseXSchema)) node"
    by (simp only: if_False Un_empty_right)
  then have "list_all (resolves (keys (Definitions caseXSchema)))
               (Root caseXSchema # map snd (Definitions caseXSchema))"
    unfolding list_all_iff by simp
  with m caseX_reflect show ?thesis by blast
qed

text \<open>
  C3. The code registers every struct type that reaches \<open>reflectStruct\<close> under
  \<open>t.Name()\<close>, the anonymous ones under the empty name, while the interface branch
  beside it registers only when the name is not empty. Evaluated on a struct with a
  field of anonymous struct type followed by a \<open>[]byte\<close> field: the anonymous struct is
  stored under the key \<open>""\<close>, its use site is the reference \<open>#/definitions/\<close>, and the
  byte slice, whose name is empty as well, is taken for that definition.
\<close>

theorem anonymous_struct_is_registered:
  "ReflectFromType 8 Reflector0 Outer =
     Some (Inr \<lparr>Root = getTypeRef ''Outer'',
       Definitions =
         [([], Node (kw0\<lparr>Required := [''X''], Type := ''object''\<rparr>) None
                 [(''X'', Type0 (kw0\<lparr>Type := ''string''\<rparr>))] (AddlBool False) [] [] None),
          (''Outer'', Node (kw0\<lparr>Required := [''Inner'', ''Photo''], Type := ''object''\<rparr>) None
                 [(''Inner'', getTypeRef []),
                  (''Photo'', Type0 (kw0\<lparr>Ref := ''#/definitions/''\<rparr>))] (AddlBool False) [] [] None)]\<rparr>)"
  by code_simp

subsection \<open>Fields\<close>

text \<open>
  C4. An embedded field whose jsonschema tag is the ignore sentinel and which has no
  json tag gets the empty annotation, and the loop then takes the branch for embedded
  fields without a json tag: the fields of the ignored type are spliced into the
  parent. Evaluated on such a struct: the property \<open>Secret\<close> of the ignored embedded
  type is in the parent's node, and required.
\<close>

theorem ignored_embedded_field_is_flattened:
  "fst (reflectFieldName Reflector0 (StructField ''Hidden'' [] Hidden [(''jsonschema'', ''-'')] True))
     = fieldAnnotation0 \<and>
   ReflectFromType 5 Reflector0 WithHidden =
     Some (Inr \<lparr>Root = getTypeRef ''WithHidden'',
       Definitions =
         [(''WithHidden'', Node (kw0\<lparr>Required := [''Secret''], Type := ''object''\<rparr>) None
                 [(''Secret'', Type0 (kw0\<lparr>Type := ''string''\<rparr>))] (AddlBool False) [] [] None)]\<rparr>)"
  by code_simp

subsection \<open>Ignored types\<close>

text \<open>
  C5 (amended). For a type of the ignore list, \<open>reflectStruct\<close> does not traverse the
  fields (the Definitions change in one entry only): it stores exactly
  \<open>{type: object, properties: {}, additionalProperties: true}\<close> under the name of the type,
  whatever \<open>AllowAdditionalProperties\<close> says, and the use site receives the reference to
  it; \<open>reflectTypeToSchema\<close> does so for every ignored type of struct kind that no earlier
  tier answers. As a variant of a discriminated union the ignored type is stored as
  that shell with the injected discriminator property, which is required.
\<close>

theorem ignored_type_is_permissive_shell:
  assumes "isIgnored r t"
  shows "reflectStruct (Suc n) r defs t =
           Some (Inr (getTypeRef (Name_of t),
                      AList.update (Name_of t) (emptyObjectSchema True) defs)) \<and>
         emptyObjectSchema True =
           Node (kw0\<lparr>Type := ''object''\<rparr>) None [] (AddlBool True) [] [] None \<and>
         (shortCircuit r defs t = None \<and> Kind_of t = KStruct \<and> t \<noteq> timeType \<and> t \<noteq> uriType \<longrightarrow>
            reflectTypeToSchema (Suc (Suc n)) r defs t =
              Some (Inr (getTypeRef (Name_of t),
                         AList.update (Name_of t) (emptyObjectSchema True) defs))) \<and>
         reflectDiscriminatedStruct (Suc n) r defs t dField dKey =
           Some (Inr (getTypeRef (defName_of t dField dKey),
                      AList.update (defName_of t dField dKey)
                        (Node (kw0\<lparr>Required := [dField], Type := ''object''\<rparr>) None
                           [(dField, getConstStringType dKey)] (AddlBool True) [] [] None) defs))"
proof -
  from assms have 1: "reflectStruct (Suc n) r defs t =
           Some (Inr (getTypeRef (Name_of t),
                      AList.update (Name_of t) (emptyObjectSchema True) defs))" for n
    by (simp add: addToDefinitions_def Let_def)
  have 2: "reflectTypeToSchema (Suc (Suc n)) r defs t = reflectStruct (Suc n) r defs t"
    if "shortCircuit r defs t = None" "Kind_of t = KStruct" "t \<noteq> timeType" "t \<noteq> uriType"
    using that by (cases t) (simp_all add: rtts_kind basic_kind_not_Struct)
  from assms have 3: "reflectDiscriminatedStruct (Suc n) r defs t dField dKey =
           Some (Inr (getTypeRef (defName_of t dField dKey),
                      AList.update (defName_of t dField dKey)
                        (Node (kw0\<lparr>Required := [dField], Type := ''object''\<rparr>) None
                           [(dField, getConstStringType dKey)] (AddlBool True) [] [] None) defs))"
    by (simp add: emptyObjectSchema_def addToDefinitions_def kw0_def Let_def)
  from 1 2 3 show ?thesis by (simp add: emptyObjectSchema_def)
qed

text \<open>
  As stated the claim fails: the discriminated variant of an ignored type has a
  property and a required entry, and an ignored type that is not a struct (here
  \<open>int\<close>) is traversed by its kind.
\<close>

theorem ignored_type_counterexample:
  "isIgnored rIgnoreA CaseX_StructA \<and>
   reflectDiscriminatedStruct 1 rIgnoreA [] CaseX_StructA ''typ'' ''typA'' =
     Some (Inr (getTypeRef ''CaseX_StructA@typ:typA'',
                [(''CaseX_StructA@typ:typA'',
                  Node (kw0\<lparr>Required := [''typ''], Type := ''object''\<rparr>) None
                    [(''typ'', getConstStringType ''typA'')] (AddlBool True) [] [] None)])) \<and>
   isIgnored (Reflector0\<lparr>IgnoredTypes := [AInt 0]\<rparr>) intT \<and>
   reflectTypeToSchema 1 (Reflector0\<lparr>IgnoredTypes := [AInt 0]\<rparr>) [] intT =
     Some (Inr (Type0 (kw0\<lparr>Type := ''integer''\<rparr>), []))"
  by code_simp

text \<open>An ignored struct of the test file, through the dispatcher, with the global option off.\<close>

theorem ignored_type_witness:
  "isIgnored rIgnoreA CaseX_StructA \<and>
   \<not> AllowAdditionalProperties rIgnoreA \<and>
   reflectTypeToSchema 2 rIgnoreA [] CaseX_StructA =
     Some (Inr (getTypeRef ''CaseX_StructA'',
                [(''CaseX_StructA'',
                  Node (kw0\<lparr>Type := ''object''\<rparr>) None [] (AddlBool True) [] [] None)]))"
proof -
  have a: "\<not> AllowAdditionalProperties rIgnoreA" by code_simp
  have s: "shortCircuit rIgnoreA [] CaseX_StructA = None" by code_simp
  have k: "Kind_of CaseX_StructA = KStruct" "CaseX_StructA \<noteq> timeType" "CaseX_StructA \<noteq> uriType"
    by (simp_all add: CaseX_StructA_def timeType_def uriType_def named_def)
  have n: "Name_of CaseX_StructA = ''CaseX_StructA''" by (simp add: CaseX_StructA_def named_def)
  note w = ignored_type_is_permissive_shell[OF isIgnored_rIgnoreA, of 0 "[]",
             THEN conjunct2, THEN conjunct2, THEN conjunct1, rule_format]
  have "reflectTypeToSchema (Suc (Suc 0)) rIgnoreA [] CaseX_StructA =
          Some (Inr (getTypeRef (Name_of CaseX_StructA),
                     AList.update (Name_of CaseX_StructA) (emptyObjectSchema True) []))"
    by (rule w) (use s k in simp)
  then have "reflectTypeToSchema 2 rIgnoreA [] CaseX_StructA =
     Some (Inr (getTypeRef ''CaseX_StructA'',
                [(''CaseX_StructA'',
                  Node (kw0\<lparr>Type := ''object''\<rparr>) None [] (AddlBool True) [] [] None)]))"
    by (simp add: n emptyObjectSchema_def numeral_2_eq_2)
  with a isIgnored_rIgnoreA show ?thesis by blast
qed

text \<open>
  C6 (amended). The required list of the node that \<open>reflectStructFields\<close> returns for
  a struct is the list it started with followed by the names of the required
  properties, in the order of declaration, embedded fields without a json tag
  contributing their own; \<open>reflectStruct\<close> stores a node with exactly that list under
  the name of the type. For a field of the struct that is not excluded, not inline and
  has a name: its required flag is the absence of \<open>omitempty\<close> among the options of
  the serialization tag or, when \<open>RequiredFromJSONSchemaTags\<close> is set, the presence of
  \<open>required\<close> in the jsonschema tag; when the flag is set the name is in the required
  list; and the name is in the list exactly when the flag is set, provided the list
  did not hold the name from the start and no other property of the object has the
  same name with a different flag.
\<close>

theorem required_list_of_struct_node:
  assumes "reflectStructFields n r st defs t = Some (Inr (st', defs'))"
      and "f \<in> set (structFields t)" and "reflectFieldName r f = (a, ex)"
      and "Name a \<noteq> []" and "\<not> Inline a"
  shows "Required (kw st') =
           Required (kw st) @ map Name (filter IsRequired (contributed r (structFields t))) \<and>
         (IsRequired a \<longleftrightarrow>
            (if RequiredFromJSONSchemaTags r
             then ''required'' \<in> set (Split (Get (FTag f) ''jsonschema'') CHR '','')
             else ''omitempty'' \<notin> set (tl (Split (serializationTag f) CHR '','')))) \<and>
         (IsRequired a \<longrightarrow> Name a \<in> set (Required (kw st'))) \<and>
         (Name a \<notin> set (Required (kw st)) \<and>
          (\<forall>b \<in> set (contributed r (structFields t)). Name b = Name a \<longrightarrow> IsRequired b = IsRequired a)
            \<longrightarrow> (Name a \<in> set (Required (kw st')) \<longleftrightarrow> IsRequired a)) \<and>
         (\<forall>m ds node ds'.
            reflectStruct m r ds t = Some (Inr (node, ds')) \<and> \<not> isIgnored r t \<longrightarrow>
            (\<exists>s. map_of ds' (Name_of t) = Some s \<and>
                 Required (kw s) = map Name (filter IsRequired (contributed r (structFields t)))))"
proof (intro conjI)
  from reflectStructFields_kw[rule_format, OF assms(1)]
  show 1: "Required (kw st') =
             Required (kw st) @ map Name (filter IsRequired (contributed r (structFields t)))"
    by (simp add: requiredNames_def)
  show "IsRequired a \<longleftrightarrow>
            (if RequiredFromJSONSchemaTags r
             then ''required'' \<in> set (Split (Get (FTag f) ''jsonschema'') CHR '','')
             else ''omitempty'' \<notin> set (tl (Split (serializationTag f) CHR '','')))"
    by (rule reflectFieldName_required[OF assms(3,4)])
  from contributed_direct[OF assms(2,3,4,5)]
  have mem: "a \<in> set (contributed r (structFields t))" .
  show "IsRequired a \<longrightarrow> Name a \<in> set (Required (kw st'))"
  proof
    assume "IsRequired a"
    with mem have "a \<in> set (filter IsRequired (contributed r (structFields t)))" by simp
    then have "Name a \<in> set (map Name (filter IsRequired (contributed r (structFields t))))"
      by force
    then show "Name a \<in> set (Required (kw st'))" unfolding 1 by simp
  qed
  show "Name a \<notin> set (Required (kw st)) \<and>
          (\<forall>b \<in> set (contributed r (structFields t)). Name b = Name a \<longrightarrow> IsRequired b = IsRequired a)
            \<longrightarrow> (Name a \<in> set (Required (kw st')) \<longleftrightarrow> IsRequired a)"
  proof (intro impI, elim conjE)
    assume n: "Name a \<notin> set (Required (kw st))"
      and u: "\<forall>b \<in> set (contributed r (structFields t)). Name b = Name a \<longrightarrow> IsRequired b = IsRequired a"
    show "Name a \<in> set (Required (kw st')) \<longleftrightarrow> IsRequired a"
    proof
      assume "Name a \<in> set (Required (kw st'))"
      with n have "Name a \<in> set (map Name (filter IsRequired (contributed r (structFields t))))"
        unfolding 1 by simp
      then obtain b where "b \<in> set (contributed r (structFields t))" "IsRequired b" "Name b = Name a"
        unfolding set_map by fastforce
      with u show "IsRequired a" by blast
    next
      assume "IsRequired a"
      with mem have "a \<in> set (filter IsRequired (contributed r (structFields t)))" by simp
      then have "Name a \<in> set (map Name (filter IsRequired (contributed r (structFields t))))"
        by force
      then show "Name a \<in> set (Required (kw st'))" unfolding 1 by simp
    qed
  qed
  show "\<forall>m ds node ds'.
            reflectStruct m r ds t = Some (Inr (node, ds')) \<and> \<not> isIgnored r t \<longrightarrow>
            (\<exists>s. map_of ds' (Name_of t) = Some s \<and>
                 Required (kw s) = map Name (filter IsRequired (contributed r (structFields t))))"
  proof (intro allI impI, elim conjE)
    fix m ds node ds'
    assume "reflectStruct m r ds t = Some (Inr (node, ds'))" "\<not> isIgnored r t"
    from reflectStruct_registered_kw[OF this]
    show "\<exists>s. map_of ds' (Name_of t) = Some s \<and>
                 Required (kw s) = map Name (filter IsRequired (contributed r (structFields t)))"
      unfolding requiredNames_def .
  qed
qed

text \<open>
  The claim as stated fails where nothing in the code removes duplicates or treats an
  inline field as a property. The second of two fields serialized as \<open>x\<close> has
  \<open>omitempty\<close>, and \<open>x\<close> is in the required list all the same, from the first. The
  embedded \<open>InlinedStruct `json:",inline"`\<close> of the test file resolves to a name and
  to a set required flag; it goes to \<open>allOf\<close> and the required list stays empty.
\<close>

theorem required_list_counterexample:
  "reflectFieldName Reflector0 (StructField ''B'' [] intT [(''json'', ''x,omitempty'')] False) =
     (\<lparr>Name = ''x'', IsRequired = False, Inline = False\<rparr>, True) \<and>
   ReflectFromType 5 Reflector0 DupNames =
     Some (Inr \<lparr>Root = getTypeRef ''DupNames'',
                Definitions =
                  [(''DupNames'',
                    Node (kw0\<lparr>Required := [''x''], Type := ''object''\<rparr>) None
                      [(''x'', Type0 (kw0\<lparr>Type := ''integer''\<rparr>))] (AddlBool False) [] [] None)]\<rparr>) \<and>
   reflectFieldName Reflector0
       (StructField ''InlinedStruct'' [] InlinedStruct [(''json'', '',inline'')] True) =
     (\<lparr>Name = ''InlinedStruct'', IsRequired = True, Inline = True\<rparr>, True) \<and>
   ReflectFromType 8 Reflector0 StructWithInline =
     Some (Inr \<lparr>Root = getTypeRef ''StructWithInline'',
                Definitions =
                  [(''InlinedStruct'',
                    Node (kw0\<lparr>Required := [''a''], Type := ''object''\<rparr>) None
                      [(''a'', Type0 (kw0\<lparr>Type := ''string''\<rparr>))] (AddlBool False) [] [] None),
                   (''StructWithInline'',
                    Node (kw0\<lparr>Type := ''object''\<rparr>) None [] (AddlBool False) []
                      [getTypeRef ''InlinedStruct''] None)]\<rparr>)"
  by code_simp

text \<open>A struct with a required field and an \<open>omitempty\<close> field, under the default
  configuration: the required list is \<open>[id]\<close>, without \<open>friends\<close>.\<close>

theorem required_list_witness:
  "reflectStructFields 3 Reflector0 (emptyObjectSchema False) [] TwoFields =
     Some (Inr (twoFieldsNode, [])) \<and>
   StructField ''Friends'' [] (SliceT unnamed intT) [(''json'', ''friends,omitempty'')] False
     \<in> set (structFields TwoFields) \<and>
   reflectFieldName Reflector0
     (StructField ''Friends'' [] (SliceT unnamed intT) [(''json'', ''friends,omitempty'')] False) =
   (\<lparr>Name = ''friends'', IsRequired = False, Inline = False\<rparr>, True) \<and>
   Required (kw twoFieldsNode) = [''id''] \<and>
   ''friends'' \<notin> set (Required (kw twoFieldsNode)) \<and>
   ''omitempty'' \<in> set (tl (Split (serializationTag
       (StructField ''Friends'' [] (SliceT unnamed intT) [(''json'', ''friends,omitempty'')] False))
       CHR '',''))"
proof -
  let ?f = "StructField ''Friends'' [] (SliceT unnamed intT) [(''json'', ''friends,omitempty'')] False"
  let ?a = "\<lparr>Name = ''friends'', IsRequired = False, Inline = False\<rparr>"
  have m: "?f \<in> set (structFields TwoFields)"
    by (simp add: structFields_def TwoFields_def)
  have n: "Name ?a \<noteq> []" and i: "\<not> Inline ?a" by simp_all
  note w = required_list_of_struct_node[OF twoFields_returns m twoFields_friends n i]
  from w[THEN conjunct1]
  have r: "Required (kw twoFieldsNode) = [''id'']"
    by (simp add: twoFields_contributed emptyObjectSchema_def kw0_def)
  have c: "\<not> RequiredFromJSONSchemaTags Reflector0" by (simp add: Reflector0_def)
  from w[THEN conjunct2, THEN conjunct1] c
  have o: "''omitempty'' \<in> set (tl (Split (serializationTag ?f) CHR '',''))" by simp
  from r have "''friends'' \<notin> set (Required (kw twoFieldsNode))" by simp
  with twoFields_returns m twoFields_friends r o show ?thesis by blast
qed

subsection \<open>Unsupported kinds\<close>




subsection \<open>Registration\<close>

text \<open>
  C8. \<open>RegisterEnumType\<close> returns an error exactly when some value's runtime type
  differs from the declared type, and \<open>RegisterDiscriminatorType\<close> exactly when the base
  type is not of interface kind or some mapped type does not implement it. On an error
  the Reflector is unchanged; on success exactly one entry is appended to the registry
  concerned and nothing else changes.
\<close>

theorem registration_raises_iff_and_atomic:
  "(fst (RegisterEnumType r enumType vals) \<noteq> None
      \<longleftrightarrow> (\<exists>v \<in> set vals. TypeOf v \<noteq> Some enumType)) \<and>
   (fst (RegisterEnumType r enumType vals) \<noteq> None
      \<longrightarrow> snd (RegisterEnumType r enumType vals) = r) \<and>
   (fst (RegisterEnumType r enumType vals) = None
      \<longrightarrow> snd (RegisterEnumType r enumType vals) =
            r\<lparr>EnumTypes := EnumTypes r @ [\<lparr>EType = enumType, Values = vals\<rparr>]\<rparr>) \<and>
   (fst (RegisterDiscriminatorType r baseType dField ancestors) \<noteq> None
      \<longleftrightarrow> (Kind_of baseType \<noteq> KInterface
           \<or> (\<exists>a \<in> set ancestors. \<not> Implements (snd a) baseType))) \<and>
   (fst (RegisterDiscriminatorType r baseType dField ancestors) \<noteq> None
      \<longrightarrow> snd (RegisterDiscriminatorType r baseType dField ancestors) = r) \<and>
   (fst (RegisterDiscriminatorType r baseType dField ancestors) = None
      \<longrightarrow> snd (RegisterDiscriminatorType r baseType dField ancestors) =
            r\<lparr>DiscriminatedTypes := DiscriminatedTypes r @
                 [\<lparr>BaseType = baseType, DiscriminatorField = dField, Ancestors = ancestors\<rparr>]\<rparr>)"
proof -
  have e: "find (\<lambda>v. TypeOf v \<noteq> Some enumType) vals = None
             \<longleftrightarrow> \<not> (\<exists>v \<in> set vals. TypeOf v \<noteq> Some enumType)"
    by (auto simp: find_None_iff)
  have d: "find (\<lambda>a. \<not> Implements (snd a) baseType) ancestors = None
             \<longleftrightarrow> \<not> (\<exists>a \<in> set ancestors. \<not> Implements (snd a) baseType)"
    by (auto simp: find_None_iff)
  show ?thesis
    using e d
    by (auto simp: RegisterEnumType_def RegisterDiscriminatorType_def split: option.splits)
qed

text \<open>Both outcomes of both registrations, on the types of the test file.\<close>

theorem registration_witness:
  "fst (RegisterEnumType Reflector0 MyEnum [AValue MyEnum ''a'', AString ''b'']) \<noteq> None \<and>
   snd (RegisterEnumType Reflector0 MyEnum [AValue MyEnum ''a'', AString ''b'']) = Reflector0 \<and>
   fst (RegisterEnumType Reflector0 MyEnum [AValue MyEnum ''a'', AValue MyEnum ''b'']) = None \<and>
   EnumTypes (snd (RegisterEnumType Reflector0 MyEnum [AValue MyEnum ''a'', AValue MyEnum ''b'']))
     = [\<lparr>EType = MyEnum, Values = [AValue MyEnum ''a'', AValue MyEnum ''b'']\<rparr>] \<and>
   fst (RegisterDiscriminatorType Reflector0 CaseX_StructA ''typ'' [(''typA'', CaseX_StructA)]) \<noteq> None \<and>
   snd (RegisterDiscriminatorType Reflector0 CaseX_StructA ''typ'' [(''typA'', CaseX_StructA)]) = Reflector0 \<and>
   fst (RegisterDiscriminatorType Reflector0 CaseX_Interface ''typ''
          [(''typA'', CaseX_StructA), (''typB'', CaseX_StructB)]) = None \<and>
   DiscriminatedTypes (snd (RegisterDiscriminatorType Reflector0 CaseX_Interface ''typ''
          [(''typA'', CaseX_StructA), (''typB'', CaseX_StructB)]))
     = [\<lparr>BaseType = CaseX_Interface, DiscriminatorField = ''typ'',
         Ancestors = [(''typA'', CaseX_StructA), (''typB'', CaseX_StructB)]\<rparr>]"
  using registration_raises_iff_and_atomic
          [of Reflector0 MyEnum "[AValue MyEnum ''a'', AString ''b'']" CaseX_StructA "''typ''"
              "[(''typA'', CaseX_StructA)]"]
        registration_raises_iff_and_atomic
          [of Reflector0 MyEnum "[AValue MyEnum ''a'', AValue MyEnum ''b'']" CaseX_Interface "''typ''"
              "[(''typA'', CaseX_StructA), (''typB'', CaseX_StructB)]"]
  by (simp add: MyEnum_def stringT_def CaseX_StructA_def CaseX_StructB_def CaseX_Interface_def
        Implements_def Reflector0_def named_def builtin_def)

subsection \<open>Byte slices\<close>




subsection \<open>allOf and oneOf of a struct node\<close>

text \<open>
  C10. When \<open>reflectStructFields\<close> returns for a struct type (possibly behind one
  pointer), the node it returns is the node accumulated by the loop over the fields,
  changed in this only: if the accumulated \<open>allOf\<close> has exactly one entry and the
  accumulated \<open>oneOf\<close> is empty, \<open>oneOf\<close> is that entry and \<open>allOf\<close> is empty;
  otherwise both are as accumulated. The step of an inline field appends the
  traversed node of the field's type to \<open>allOf\<close> and leaves \<open>oneOf\<close> alone.
\<close>

theorem allOf_collapse_after_fields:
  assumes "reflectStructFields (Suc n) r st defs t = Some (Inr (st', defs'))"
      and "(case t of PtrT ms e \<Rightarrow> e | _ \<Rightarrow> t) = StructT i fs"
  shows "(\<exists>acc. fieldsLoop n r st defs fs = Some (Inr (acc, defs')) \<and>
           (if length (AllOf acc) = 1 \<and> OneOf acc = []
            then OneOf st' = AllOf acc \<and> AllOf st' = []
            else OneOf st' = OneOf acc \<and> AllOf st' = AllOf acc) \<and>
           kw st' = kw acc \<and> Items st' = Items acc \<and> Properties st' = Properties acc \<and>
           AdditionalProperties st' = AdditionalProperties acc \<and> Media st' = Media acc) \<and>
         (\<forall>f a ex ty d1 rest m s d.
            reflectFieldName r f = (a, ex) \<and> Inline a \<and>
            reflectTypeToSchema m r d (FType f) = Some (Inr (ty, d1)) \<longrightarrow>
            fieldsLoop m r s d (f # rest) = fieldsLoop m r (set_AllOf (AllOf s @ [ty]) s) d1 rest \<and>
            AllOf (set_AllOf (AllOf s @ [ty]) s) = AllOf s @ [ty] \<and>
            OneOf (set_AllOf (AllOf s @ [ty]) s) = OneOf s)"
proof -
  from assms(1) have 1: "\<exists>acc. fieldsLoop n r st defs fs = Some (Inr (acc, defs')) \<and>
                           st' = collapseAllOf acc"
  proof (cases rule: reflectStructFields_Suc_returns)
    case (fields i' fs' acc)
    with assms(2) show ?thesis by simp
  next
    case other
    with assms show ?thesis by (auto simp: Let_def split: option.splits sum.splits)
  qed
  have 2: "AllOf (set_AllOf xs s) = xs" "OneOf (set_AllOf xs s) = OneOf s" for xs s
    by (cases s; simp)+
  from 1 show ?thesis
    by (auto simp: collapseAllOf_sel 2)
qed

text \<open>The struct of the test file with one inlined discriminated interface: its single
  \<open>allOf\<close> entry becomes its \<open>oneOf\<close>.\<close>

theorem allOf_collapse_witness:
  "reflectStructFields (Suc 5) rCaseX (emptyObjectSchema False) [] CaseX_WithInlinedDiscriminatedType =
     Some (Inr (snd (last (Definitions caseXSchema)), butlast (Definitions caseXSchema))) \<and>
   (case CaseX_WithInlinedDiscriminatedType of PtrT ms e \<Rightarrow> e
    | _ \<Rightarrow> CaseX_WithInlinedDiscriminatedType) =
     StructT (named ''CaseX_WithInlinedDiscriminatedType'')
       [StructField ''CaseX_Interface'' [] CaseX_Interface [(''json'', '',inline'')] True] \<and>
   OneOf (snd (last (Definitions caseXSchema))) = [getTypeRef ''CaseX_Interface''] \<and>
   AllOf (snd (last (Definitions caseXSchema))) = []"
proof -
  have h: "(case CaseX_WithInlinedDiscriminatedType of PtrT ms e \<Rightarrow> e
            | _ \<Rightarrow> CaseX_WithInlinedDiscriminatedType) =
           StructT (named ''CaseX_WithInlinedDiscriminatedType'')
             [StructField ''CaseX_Interface'' [] CaseX_Interface [(''json'', '',inline'')] True]"
    by (simp add: CaseX_WithInlinedDiscriminatedType_def)
  from allOf_collapse_after_fields[OF caseX_fields h, THEN conjunct1]
  obtain acc where
    a: "fieldsLoop 5 rCaseX (emptyObjectSchema False) []
          [StructField ''CaseX_Interface'' [] CaseX_Interface [(''json'', '',inline'')] True] =
        Some (Inr (acc, butlast (Definitions caseXSchema)))"
    and b: "if length (AllOf acc) = 1 \<and> OneOf acc = []
            then OneOf (snd (last (Definitions caseXSchema))) = AllOf acc \<and>
                 AllOf (snd (last (Definitions caseXSchema))) = []
            else OneOf (snd (last (Definitions caseXSchema))) = OneOf acc \<and>
                 AllOf (snd (last (Definitions caseXSchema))) = AllOf acc"
    by blast
  from a caseX_loop
  have "acc = Node (kw0\<lparr>Type := ''object''\<rparr>) None [] (AddlBool False)
                [getTypeRef ''CaseX_Interface''] [] None"
    by simp
  with b have "OneOf (snd (last (Definitions caseXSchema))) = [getTypeRef ''CaseX_Interface'']"
    and "AllOf (snd (last (Definitions caseXSchema))) = []"
    by simp_all
  with caseX_fields h show ?thesis by blast
qed

end
